theory Spec2Isabelle
  imports Main
begin

section \<open>The background relay of the browser extension (extension/js/background.js)\<close>

text \<open>
  The background script is event driven: every handler runs to completion, and the only
  state it keeps is in module-level variables. The model is a step function over a record
  holding these variables, one event of the browser runtime at a time. What the runtime
  decides (whether a channel accepts a message, whether the socket is open, the outcome
  of a network request, the result of parsing a frame) is an input of the step. Every
  call of a browser interface is appended to a log, in the order the script makes it.
  Calls of the console are left out.
\<close>

subsection \<open>JavaScript values and exceptions\<close>

text \<open>
  Messages are structured values. Numbers only pass through the script unchanged, so
  they are kept as integers. \<open>JUndefined\<close> is the value of a property that is absent.
\<close>

datatype jsval =
    JUndefined
  | JNull
  | JBool bool
  | JNum int
  | JStr string
  | JArr "jsval list"
  | JObj "(string \<times> jsval) list"

text \<open>A thrown Error object; the script only ever reads its \<open>message\<close>.\<close>

datatype exn = Exn string

fun exn_message :: "exn \<Rightarrow> string" where
  "exn_message (Exn m) = m"

text \<open>
  Property read \<open>v.k\<close>, for the property names the script reads (\<open>type\<close>, \<open>status\<close>,
  \<open>state\<close>, \<open>error\<close>, \<open>task\<close>, \<open>task_id\<close>): \<open>null\<close> and \<open>undefined\<close> throw a
  TypeError (with the text the V8 engine gives it), an object yields the property or
  \<open>undefined\<close>, and a boolean, number, string or array has none of these properties.
\<close>

fun get_prop :: "jsval \<Rightarrow> string \<Rightarrow> exn + jsval" where
  "get_prop JNull k =
     Inl (Exn (''Cannot read properties of null (reading '' @ [CHR 0x27] @ k @ [CHR 0x27] @ '')''))"
| "get_prop JUndefined k =
     Inl (Exn (''Cannot read properties of undefined (reading '' @ [CHR 0x27] @ k @ [CHR 0x27] @ '')''))"
| "get_prop (JObj kvs) k = Inr (case map_of kvs k of None \<Rightarrow> JUndefined | Some v \<Rightarrow> v)"
| "get_prop v k = Inr JUndefined"

subsection \<open>Ports, effects and the state of the script\<close>

text \<open>A port object of the runtime: its identity and the name it connected under.\<close>

record port =
  pid :: nat
  pname :: string

text \<open>The two functions the script hands to \<open>setTimeout\<close>.\<close>

datatype callback = ConnectWebSocket | ClearBadgeText

text \<open>
  The badge texts of the script: the empty string, the lightning sign (running), the
  check mark (completed) and the exclamation mark (failed).
\<close>

datatype badge = BadgeEmpty | BadgeLightning | BadgeCheck | BadgeBang

text \<open>
  The two requests of \<open>executeTask\<close>: \<open>POST /api/tasks\<close> with the serialised task as
  body, and \<open>POST /api/execute/\<close> followed by the task id, kept with the value that is interpolated
  into the path.
\<close>

datatype request = CreateTask jsval | ExecuteTask jsval

text \<open>
  The calls the script makes, as logged. \<open>Broadcast m\<close> marks the entry into
  \<open>broadcastToPopups(m)\<close>; \<open>PostMessage p m ok\<close> is the call \<open>p.postMessage(m)\<close>,
  with \<open>ok\<close> false when the call threw. \<open>Fetch k r\<close> is a request issued by the
  \<open>k\<close>-th invocation of \<open>executeTask\<close>. Sockets are numbered in the order the script
  creates them.
\<close>

datatype effect =
    Broadcast jsval
  | PostMessage port jsval bool
  | SetBadgeText badge
  | SetBadgeBackgroundColor string
  | SetTimeout callback nat
  | StorageSet jsval
  | NotificationCreate jsval
  | Fetch nat request
  | NewWebSocket nat
  | WsCloseCall nat
  | WsSend nat jsval

text \<open>
  The points at which an invocation of \<open>executeTask\<close> is suspended: awaiting the first
  \<open>fetch\<close>, awaiting \<open>response.json()\<close>, and awaiting the second \<open>fetch\<close> (with
  \<open>taskData\<close> in scope).
\<close>

datatype cont = AwaitCreate | AwaitJson | AwaitExecute jsval

text \<open>
  How an awaited promise settles: a \<open>fetch\<close> rejects with an error or resolves to a
  response with its \<open>ok\<close> flag; \<open>response.json()\<close> resolves to the parsed body or
  rejects.
\<close>

datatype settled = Rejected string | Response bool | JsonOk jsval | JsonFail string

text \<open>
  The module-level variables \<open>ws\<close>, \<open>reconnectAttempts\<close> and \<open>ports\<close> (a Set, kept
  as the list of its elements in insertion order), and what the runtime holds for the
  script: the listeners attached to ports, the pending timers with the time they are
  due (milliseconds), the clock, the badge text last set, the suspended invocations of
  \<open>executeTask\<close>, and the log of calls.
\<close>

record state =
  ws :: "nat option"
  reconnectAttempts :: nat
  ports :: "port list"
  sockets :: nat
  disconnectListeners :: "port list"
  messageListeners :: "port list"
  timers :: "(nat \<times> callback) list"
  now :: nat
  badgeText :: badge
  invocations :: nat
  pending :: "(nat \<times> cont) list"
  log :: "effect list"

text \<open>
  What the runtime decides at an event: which ports accept a \<open>postMessage\<close> (the call
  throws on the others), and whether \<open>ws.readyState\<close> is \<open>OPEN\<close>.
\<close>

record env =
  accepts :: "port \<Rightarrow> bool"
  wsOpen :: bool

definition MAX_RECONNECT_ATTEMPTS :: nat where
  "MAX_RECONNECT_ATTEMPTS = 5"

definition RECONNECT_DELAY :: nat where
  "RECONNECT_DELAY = 1000"

definition emit :: "effect \<Rightarrow> state \<Rightarrow> state" where
  "emit e s = s\<lparr>log := log s @ [e]\<rparr>"

text \<open>\<open>Set.prototype.add\<close> and \<open>Set.prototype.delete\<close> on the insertion-ordered elements.\<close>

definition set_add :: "port \<Rightarrow> port list \<Rightarrow> port list" where
  "set_add p ps = (if p \<in> set ps then ps else ps @ [p])"

definition set_delete :: "port \<Rightarrow> port list \<Rightarrow> port list" where
  "set_delete p ps = removeAll p ps"

subsection \<open>The Port Registry: \<open>broadcastToPopups\<close>\<close>

text \<open>\<open>port.postMessage(message)\<close>: returns normally or throws, as the runtime decides.\<close>

definition postMessage :: "(port \<Rightarrow> bool) \<Rightarrow> port \<Rightarrow> jsval \<Rightarrow> state \<Rightarrow> exn option \<times> state" where
  "postMessage acc p m s =
     (if acc p then (None, emit (PostMessage p m True) s)
      else (Some (Exn ''Attempting to use a disconnected port object''),
            emit (PostMessage p m False) s))"

text \<open>
  The body of \<open>ports.forEach\<close> over the elements still to be visited: \<open>try\<close> the
  \<open>postMessage\<close>, and in the \<open>catch\<close> delete the port. Only the element being visited
  is ever deleted, so the elements to be visited are those of the set at the start.
\<close>

fun forEach_port :: "(port \<Rightarrow> bool) \<Rightarrow> jsval \<Rightarrow> port list \<Rightarrow> state \<Rightarrow> state" where
  "forEach_port acc m [] s = s"
| "forEach_port acc m (p # ps) s =
     (case postMessage acc p m s of
        (None, s1) \<Rightarrow> forEach_port acc m ps s1
      | (Some e, s1) \<Rightarrow> forEach_port acc m ps (s1\<lparr>ports := set_delete p (ports s1)\<rparr>))"

definition broadcastToPopups :: "(port \<Rightarrow> bool) \<Rightarrow> jsval \<Rightarrow> state \<Rightarrow> state" where
  "broadcastToPopups acc m s = forEach_port acc m (ports s) (emit (Broadcast m) s)"

subsection \<open>The Connection Manager: \<open>connectWebSocket\<close> and the socket handlers\<close>

definition setTimeout :: "callback \<Rightarrow> nat \<Rightarrow> state \<Rightarrow> state" where
  "setTimeout cb d s = emit (SetTimeout cb d) (s\<lparr>timers := timers s @ [(now s + d, cb)]\<rparr>)"

definition connectWebSocket :: "state \<Rightarrow> state" where
  "connectWebSocket s =
     (let s1 = (case ws s of Some h \<Rightarrow> emit (WsCloseCall h) s | None \<Rightarrow> s);
          h' = sockets s1
      in emit (NewWebSocket h') (s1\<lparr>ws := Some h', sockets := Suc h'\<rparr>))"

definition status_message :: "string \<Rightarrow> jsval" where
  "status_message st = JObj [(''type'', JStr ''connection_status''), (''status'', JStr st)]"

definition onopen :: "(port \<Rightarrow> bool) \<Rightarrow> state \<Rightarrow> state" where
  "onopen acc s = broadcastToPopups acc (status_message ''connected'') (s\<lparr>reconnectAttempts := 0\<rparr>)"

definition onclose :: "(port \<Rightarrow> bool) \<Rightarrow> state \<Rightarrow> state" where
  "onclose acc s =
     (let s1 = broadcastToPopups acc (status_message ''disconnected'') s
      in if reconnectAttempts s1 < MAX_RECONNECT_ATTEMPTS
         then (let s2 = s1\<lparr>reconnectAttempts := reconnectAttempts s1 + 1\<rparr>
               in setTimeout ConnectWebSocket (RECONNECT_DELAY * reconnectAttempts s2) s2)
         else s1)"

definition onerror :: "(port \<Rightarrow> bool) \<Rightarrow> state \<Rightarrow> state" where
  "onerror acc s =
     broadcastToPopups acc
       (JObj [(''type'', JStr ''error''), (''message'', JStr ''WebSocket connection error'')]) s"

subsection \<open>The Message Router: \<open>handleWebSocketMessage\<close> and its handlers\<close>

definition setBadgeText :: "badge \<Rightarrow> state \<Rightarrow> state" where
  "setBadgeText b s = emit (SetBadgeText b) (s\<lparr>badgeText := b\<rparr>)"

definition setBadgeBackgroundColor :: "string \<Rightarrow> state \<Rightarrow> state" where
  "setBadgeBackgroundColor c s = emit (SetBadgeBackgroundColor c) s"

definition handleTaskUpdate :: "jsval \<Rightarrow> state \<Rightarrow> exn option \<times> state" where
  "handleTaskUpdate message s =
     (case get_prop message ''status'' of
        Inl e \<Rightarrow> (Some e, s)
      | Inr st \<Rightarrow>
          (None,
           if st = JStr ''running'' then
             setBadgeBackgroundColor ''#FFC107'' (setBadgeText BadgeLightning s)
           else if st = JStr ''completed'' then
             setTimeout ClearBadgeText 3000
               (setBadgeBackgroundColor ''#4CAF50'' (setBadgeText BadgeCheck s))
           else if st = JStr ''failed'' then
             setBadgeBackgroundColor ''#F44336'' (setBadgeText BadgeBang s)
           else s))"

definition handleBrowserState :: "jsval \<Rightarrow> state \<Rightarrow> exn option \<times> state" where
  "handleBrowserState message s =
     (case get_prop message ''state'' of
        Inl e \<Rightarrow> (Some e, s)
      | Inr v \<Rightarrow> (None, emit (StorageSet v) s))"

text \<open>
  \<open>handleError\<close> calls \<open>chrome.notifications.create\<close> with \<open>message: message.error\<close>;
  the log keeps the value passed as the body of the notification.
\<close>

definition handleError :: "jsval \<Rightarrow> state \<Rightarrow> exn option \<times> state" where
  "handleError message s =
     (case get_prop message ''error'' of
        Inl e \<Rightarrow> (Some e, s)
      | Inr v \<Rightarrow> (None, emit (NotificationCreate v) s))"

definition handleWebSocketMessage :: "(port \<Rightarrow> bool) \<Rightarrow> jsval \<Rightarrow> state \<Rightarrow> exn option \<times> state" where
  "handleWebSocketMessage acc message s =
     (let s1 = broadcastToPopups acc message s
      in case get_prop message ''type'' of
           Inl e \<Rightarrow> (Some e, s1)
         | Inr t \<Rightarrow>
             if t = JStr ''task_update'' then handleTaskUpdate message s1
             else if t = JStr ''browser_state'' then handleBrowserState message s1
             else if t = JStr ''error'' then handleError message s1
             else (None, s1))"

text \<open>
  \<open>ws.onmessage\<close>: the frame is given as the result of \<open>JSON.parse\<close> (\<open>None\<close> when it
  throws). The \<open>catch\<close> swallows the parse error and anything the router throws.
\<close>

definition onmessage :: "(port \<Rightarrow> bool) \<Rightarrow> jsval option \<Rightarrow> state \<Rightarrow> state" where
  "onmessage acc parsed s =
     (case parsed of
        None \<Rightarrow> s
      | Some message \<Rightarrow> snd (handleWebSocketMessage acc message s))"

subsection \<open>The Task Submitter: \<open>executeTask\<close>\<close>

text \<open>
  One resumption of the \<open>try\<close> block of \<open>executeTask\<close>: from the point where the
  invocation is suspended and the way the awaited promise settled, either an exception is
  thrown, or the invocation suspends again (having issued a request or not), or it reaches
  the broadcast of \<open>task_created\<close>. A promise never settles in a way that does not fit
  the await; the model leaves the invocation suspended there.
\<close>

datatype progress = Await "request option" cont | Done jsval

fun try_block :: "cont \<Rightarrow> settled \<Rightarrow> exn + progress" where
  "try_block AwaitCreate (Rejected m) = Inl (Exn m)"
| "try_block AwaitCreate (Response ok) =
     (if \<not> ok then Inl (Exn ''Failed to create task'')
      else Inr (Await None AwaitJson))"
| "try_block AwaitJson (JsonFail m) = Inl (Exn m)"
| "try_block AwaitJson (JsonOk taskData) =
     (case get_prop taskData ''task_id'' of
        Inl e \<Rightarrow> Inl e
      | Inr tid \<Rightarrow> Inr (Await (Some (ExecuteTask tid)) (AwaitExecute taskData)))"
| "try_block (AwaitExecute taskData) (Rejected m) = Inl (Exn m)"
| "try_block (AwaitExecute taskData) (Response ok) =
     (if \<not> ok then Inl (Exn ''Failed to execute task'')
      else (case get_prop taskData ''task_id'' of
              Inl e \<Rightarrow> Inl e
            | Inr tid \<Rightarrow> Inr (Done (JObj [(''type'', JStr ''task_created''), (''taskId'', tid)]))))"
| "try_block c r = Inr (Await None c)"

text \<open>The \<open>catch\<close> block turns every exception into the broadcast of an error event.\<close>

definition executeTask_resume :: "cont \<Rightarrow> settled \<Rightarrow> progress" where
  "executeTask_resume c r =
     (case try_block c r of
        Inl e \<Rightarrow>
          Done (JObj [(''type'', JStr ''error''),
                      (''message'', JStr (''Failed to execute task: '' @ exn_message e))])
      | Inr st \<Rightarrow> st)"

text \<open>The start of an invocation: the first \<open>fetch\<close> is issued and the invocation suspends.\<close>

definition executeTask :: "jsval \<Rightarrow> state \<Rightarrow> state" where
  "executeTask task s =
     (let k = invocations s
      in emit (Fetch k (CreateTask task))
           (s\<lparr>invocations := Suc k, pending := pending s @ [(k, AwaitCreate)]\<rparr>))"

text \<open>A promise awaited by invocation \<open>k\<close> settles and the invocation runs on.\<close>

definition settle :: "(port \<Rightarrow> bool) \<Rightarrow> nat \<Rightarrow> settled \<Rightarrow> state \<Rightarrow> state" where
  "settle acc k r s =
     (case map_of (pending s) k of
        None \<Rightarrow> s
      | Some c \<Rightarrow>
          (case executeTask_resume c r of
             Await req c' \<Rightarrow>
               (let s1 = s\<lparr>pending := map (\<lambda>(j, d). if j = k then (j, c') else (j, d)) (pending s)\<rparr>
                in case req of None \<Rightarrow> s1 | Some q \<Rightarrow> emit (Fetch k q) s1)
           | Done m \<Rightarrow>
               broadcastToPopups acc m (s\<lparr>pending := filter (\<lambda>(j, d). j \<noteq> k) (pending s)\<rparr>)))"

text \<open>
  What one invocation does, given the outcomes of its awaits in order: the requests it
  issues and the events it broadcasts.
\<close>

fun executeTask_from :: "cont \<Rightarrow> settled list \<Rightarrow> request list \<times> jsval list" where
  "executeTask_from c [] = ([], [])"
| "executeTask_from c (r # rs) =
     (case executeTask_resume c r of
        Await req c' \<Rightarrow>
          (case executeTask_from c' rs of
             (qs, bs) \<Rightarrow> ((case req of None \<Rightarrow> [] | Some q \<Rightarrow> [q]) @ qs, bs))
      | Done m \<Rightarrow> ([], [m]))"

definition executeTask_trace :: "jsval \<Rightarrow> settled list \<Rightarrow> request list \<times> jsval list" where
  "executeTask_trace task rs =
     (case executeTask_from AwaitCreate rs of (qs, bs) \<Rightarrow> (CreateTask task # qs, bs))"

subsection \<open>The listener of \<open>chrome.runtime.onConnect\<close>\<close>

text \<open>The listener a registered port gets for its messages (an async function: what it throws is dropped).\<close>

definition onPortMessage :: "jsval \<Rightarrow> state \<Rightarrow> state" where
  "onPortMessage message s =
     (case get_prop message ''type'' of
        Inl e \<Rightarrow> s
      | Inr t \<Rightarrow>
          if t = JStr ''execute_task'' then
            (case get_prop message ''task'' of
               Inl e \<Rightarrow> s
             | Inr task \<Rightarrow> executeTask task s)
          else s)"

text \<open>
  The \<open>postMessage\<close> of the initial status is outside any \<open>try\<close>: when it throws, the
  listener ends there and the two port listeners are never attached.
\<close>

definition onConnect :: "env \<Rightarrow> port \<Rightarrow> state \<Rightarrow> state" where
  "onConnect ev p s =
     (if pname p = ''popup'' then
        (let s1 = s\<lparr>ports := set_add p (ports s)\<rparr>
         in case postMessage (accepts ev) p
                   (status_message (if ws s1 \<noteq> None \<and> wsOpen ev then ''connected'' else ''disconnected''))
                   s1 of
              (Some e, s2) \<Rightarrow> s2
            | (None, s2) \<Rightarrow>
                s2\<lparr>disconnectListeners := disconnectListeners s2 @ [p],
                   messageListeners := messageListeners s2 @ [p]\<rparr>)
      else s)"

subsection \<open>Timers and the events of the runtime\<close>

definition fire :: "callback \<Rightarrow> state \<Rightarrow> state" where
  "fire cb s = (case cb of ConnectWebSocket \<Rightarrow> connectWebSocket s
                         | ClearBadgeText \<Rightarrow> setBadgeText BadgeEmpty s)"

text \<open>
  Time passes by \<open>d\<close> milliseconds: the timers that fall due fire at their due time,
  earliest first and in the order they were set when due together.
\<close>

definition elapse :: "nat \<Rightarrow> state \<Rightarrow> state" where
  "elapse d s =
     (let t = now s + d;
          due = sort_key fst (filter (\<lambda>(t', cb). t' \<le> t) (timers s));
          s1 = s\<lparr>timers := filter (\<lambda>(t', cb). \<not> t' \<le> t) (timers s)\<rparr>
      in (fold (\<lambda>(t', cb) s'. fire cb (s'\<lparr>now := t'\<rparr>)) due s1)\<lparr>now := t\<rparr>)"

text \<open>The callback of \<open>setInterval\<close> (the period of 30 seconds is not part of the model).\<close>

definition ping :: "env \<Rightarrow> state \<Rightarrow> state" where
  "ping ev s =
     (case ws s of
        Some h \<Rightarrow> if wsOpen ev then emit (WsSend h (JObj [(''type'', JStr ''ping'')])) s else s
      | None \<Rightarrow> s)"

text \<open>
  The events: a call of \<open>connectWebSocket()\<close> from outside the handlers (the last line
  of the script is one), the four events of a socket, a port connecting, disconnecting or
  sending a message, a promise of an invocation settling, time passing, and the interval
  callback.
\<close>

datatype event =
    Connect
  | SocketOpen
  | SocketClose
  | SocketError
  | SocketMessage "jsval option"
  | PortConnect port
  | PortDisconnect port
  | PortMessage port jsval
  | Settle nat settled
  | Elapse nat
  | Interval

fun step :: "env \<Rightarrow> event \<Rightarrow> state \<Rightarrow> state" where
  "step ev Connect s = connectWebSocket s"
| "step ev SocketOpen s = onopen (accepts ev) s"
| "step ev SocketClose s = onclose (accepts ev) s"
| "step ev SocketError s = onerror (accepts ev) s"
| "step ev (SocketMessage parsed) s = onmessage (accepts ev) parsed s"
| "step ev (PortConnect p) s = onConnect ev p s"
| "step ev (PortDisconnect p) s =
     fold (\<lambda>q s'. s'\<lparr>ports := set_delete p (ports s')\<rparr>)
       (filter (\<lambda>q. q = p) (disconnectListeners s)) s"
| "step ev (PortMessage p message) s =
     fold (\<lambda>q s'. onPortMessage message s')
       (filter (\<lambda>q. q = p) (messageListeners s)) s"
| "step ev (Settle k r) s = settle (accepts ev) k r s"
| "step ev (Elapse d) s = elapse d s"
| "step ev Interval s = ping ev s"

fun run :: "(env \<times> event) list \<Rightarrow> state \<Rightarrow> state" where
  "run [] s = s"
| "run ((ev, e) # tr) s = run tr (step ev e s)"

text \<open>The variables as the script initialises them, and the state after its last line.\<close>

definition initial :: state where
  "initial = \<lparr>ws = None, reconnectAttempts = 0, ports = [], sockets = 0,
     disconnectListeners = [], messageListeners = [], timers = [], now = 0,
     badgeText = BadgeEmpty, invocations = 0, pending = [], log = []\<rparr>"

definition boot :: state where
  "boot = connectWebSocket initial"

subsection \<open>Reading the log\<close>

text \<open>The messages a port received, and the messages the script tried to post to it.\<close>

fun received :: "port \<Rightarrow> effect list \<Rightarrow> jsval list" where
  "received p [] = []"
| "received p (PostMessage q m ok # l) = (if q = p \<and> ok then m # received p l else received p l)"
| "received p (x # l) = received p l"

fun posted :: "port \<Rightarrow> effect list \<Rightarrow> jsval list" where
  "posted p [] = []"
| "posted p (PostMessage q m ok # l) = (if q = p then m # posted p l else posted p l)"
| "posted p (x # l) = posted p l"

text \<open>The delays of the reconnects scheduled, in order.\<close>

fun reconnects :: "effect list \<Rightarrow> nat list" where
  "reconnects [] = []"
| "reconnects (SetTimeout ConnectWebSocket d # l) = d # reconnects l"
| "reconnects (x # l) = reconnects l"

subsection \<open>Sample inputs\<close>

text \<open>
  Two popups, a port connecting under another name, and two behaviours of the runtime
  (every channel accepts; the channel of the first popup throws), read while the socket
  is not open.
\<close>

definition popup1 :: port where
  "popup1 = \<lparr>pid = 1, pname = ''popup''\<rparr>"

definition popup2 :: port where
  "popup2 = \<lparr>pid = 2, pname = ''popup''\<rparr>"

definition options3 :: port where
  "options3 = \<lparr>pid = 3, pname = ''options''\<rparr>"

definition all_ok :: env where
  "all_ok = \<lparr>accepts = (\<lambda>p. True), wsOpen = False\<rparr>"

definition popup1_broken :: env where
  "popup1_broken = \<lparr>accepts = (\<lambda>p. p \<noteq> popup1), wsOpen = False\<rparr>"

subsection \<open>Reading a sequence of events\<close>

text \<open>The number of close events of a sequence, and whether it has no open event.\<close>

fun closes :: "(env \<times> event) list \<Rightarrow> nat" where
  "closes [] = 0"
| "closes ((ev, SocketClose) # tr) = Suc (closes tr)"
| "closes (x # tr) = closes tr"

fun never_opens :: "(env \<times> event) list \<Rightarrow> bool" where
  "never_opens [] = True"
| "never_opens ((ev, SocketOpen) # tr) = False"
| "never_opens (x # tr) = never_opens tr"

text \<open>Five closes in a row, each followed by the wait for the reconnect it scheduled.\<close>

definition five_closes :: "(env \<times> event) list" where
  "five_closes = [(all_ok, SocketClose), (all_ok, Elapse 1000), (all_ok, SocketClose), (all_ok, Elapse 2000),
        (all_ok, SocketClose), (all_ok, Elapse 3000), (all_ok, SocketClose), (all_ok, Elapse 4000),
        (all_ok, SocketClose), (all_ok, Elapse 5000)]"

subsection \<open>Words of the claims\<close>

text \<open>
  The calls that are side effects of the router's handlers (badge, timer, storage,
  notification), and the event types its \<open>switch\<close> recognises.
\<close>

fun side_effect :: "effect \<Rightarrow> bool" where
  "side_effect (SetBadgeText b) = True"
| "side_effect (SetBadgeBackgroundColor c) = True"
| "side_effect (SetTimeout cb d) = True"
| "side_effect (StorageSet v) = True"
| "side_effect (NotificationCreate v) = True"
| "side_effect x = False"

definition recognized :: "jsval \<Rightarrow> bool" where
  "recognized t = (t = JStr ''task_update'' \<or> t = JStr ''browser_state'' \<or> t = JStr ''error'')"

text \<open>A request that did not succeed: the promise rejected, or the response is not \<open>ok\<close>.\<close>

fun fetch_failed :: "settled \<Rightarrow> bool" where
  "fetch_failed (Rejected m) = True"
| "fetch_failed (Response ok) = (\<not> ok)"
| "fetch_failed r = False"

text \<open>The two events \<open>executeTask\<close> broadcasts.\<close>

definition error_event :: "string \<Rightarrow> jsval" where
  "error_event msg = JObj [(''type'', JStr ''error''), (''message'', JStr msg)]"

definition task_created :: "jsval \<Rightarrow> jsval" where
  "task_created t = JObj [(''type'', JStr ''task_created''), (''taskId'', t)]"

subsection \<open>Sample runs\<close>

text \<open>
  A frame of a type the router does not know; a popup submitting a task; the same
  invocation after the create response and its body \<open>{task_id: "t1"}\<close> arrived;
  and a \<open>task_update\<close> frame, with a run in which a completed update is followed, one
  second later, by a failed one.
\<close>

definition future_frame :: jsval where
  "future_frame = JObj [(''type'', JStr ''unknown_future_type''), (''x'', JNum 1)]"

definition submit_request :: jsval where
  "submit_request = JObj [(''type'', JStr ''execute_task''), (''task'', JStr ''open the inbox'')]"

definition submitted :: "(env \<times> event) list" where
  "submitted = [(all_ok, PortConnect popup1), (all_ok, PortConnect popup2),
                (all_ok, PortMessage popup1 submit_request)]"

definition created_t1 :: "(env \<times> event) list" where
  "created_t1 = submitted @ [(all_ok, Settle 0 (Response True)),
                (all_ok, Settle 0 (JsonOk (JObj [(''task_id'', JStr ''t1'')])))]"

definition task_update :: "string \<Rightarrow> jsval" where
  "task_update st = JObj [(''type'', JStr ''task_update''), (''status'', JStr st)]"

definition completed_then_failed :: "(env \<times> event) list" where
  "completed_then_failed =
     [(all_ok, SocketMessage (Some (task_update ''completed''))),
      (all_ok, Elapse 1000),
      (all_ok, SocketMessage (Some (task_update ''failed'')))]"

subsection \<open>The registry as the specification words it\<close>

text \<open>
  A sequence of registrations and unregistrations only: popups connecting, with their
  initial status message accepted, and ports disconnecting. Over such a sequence the
  specification's registry is the set that \<open>register\<close> adds a surface to and
  \<open>unregister\<close> removes it from.
\<close>

fun registrations_only :: "(env \<times> event) list \<Rightarrow> bool" where
  "registrations_only [] = True"
| "registrations_only ((ev, PortConnect p) # tr) =
     (pname p = ''popup'' \<and> accepts ev p \<and> registrations_only tr)"
| "registrations_only ((ev, PortDisconnect p) # tr) = registrations_only tr"
| "registrations_only (x # tr) = False"

fun spec_registered :: "port set \<Rightarrow> (env \<times> event) list \<Rightarrow> port set" where
  "spec_registered R [] = R"
| "spec_registered R ((ev, PortConnect p) # tr) = spec_registered (insert p R) tr"
| "spec_registered R ((ev, PortDisconnect p) # tr) = spec_registered (R - {p}) tr"
| "spec_registered R (x # tr) = spec_registered R tr"

text \<open>
  Registrations and an unregistration: the first popup connects twice, the second
  connects and disconnects.
\<close>

definition registry_ops :: "(env \<times> event) list" where
  "registry_ops = [(all_ok, PortConnect popup1), (all_ok, PortConnect popup2),
                   (all_ok, PortConnect popup1), (all_ok, PortDisconnect popup2)]"

section \<open>Properties\<close>

subsection \<open>What \<open>broadcastToPopups\<close> computes\<close>

lemma filter_after_delete:
  "\<not> acc p \<Longrightarrow> filter (\<lambda>q. q \<in> set ps \<longrightarrow> acc q) (removeAll p xs)
        = filter (\<lambda>q. q = p \<or> q \<in> set ps \<longrightarrow> acc q) xs"
  by (induction xs) auto

lemma forEach_port_eq:
  "forEach_port acc m ps s =
     s\<lparr>ports := filter (\<lambda>q. q \<in> set ps \<longrightarrow> acc q) (ports s),
       log := log s @ map (\<lambda>p. PostMessage p m (acc p)) ps\<rparr>"
proof (induction ps arbitrary: s)
  case Nil
  show ?case by simp
next
  case (Cons p ps)
  show ?case
  proof (cases "acc p")
    case True
    have "filter (\<lambda>q. q \<in> set ps \<longrightarrow> acc q) (ports s) = filter (\<lambda>q. q = p \<or> q \<in> set ps \<longrightarrow> acc q) (ports s)"
      using True by (auto intro: filter_cong)
    then show ?thesis
      using True by (simp add: Cons.IH postMessage_def emit_def)
  next
    case False
    then show ?thesis
      by (simp add: Cons.IH postMessage_def emit_def set_delete_def filter_after_delete)
  qed
qed

lemma broadcast_eq:
  "broadcastToPopups acc m s =
     s\<lparr>ports := filter acc (ports s),
       log := log s @ Broadcast m # map (\<lambda>p. PostMessage p m (acc p)) (ports s)\<rparr>"
proof -
  have "filter (\<lambda>q. q \<in> set (ports s) \<longrightarrow> acc q) (ports s) = filter acc (ports s)"
    by (auto intro: filter_cong)
  then show ?thesis
    by (simp add: broadcastToPopups_def forEach_port_eq emit_def)
qed

subsection \<open>Reading the log of an operation\<close>

lemma posted_append: "posted p (l @ l') = posted p l @ posted p l'"
  by (induction l rule: posted.induct) simp_all

lemma received_append: "received p (l @ l') = received p l @ received p l'"
  by (induction l rule: received.induct) simp_all

lemma reconnects_append: "reconnects (l @ l') = reconnects l @ reconnects l'"
  by (induction l rule: reconnects.induct) simp_all

lemma posted_fanout: "posted p (map (\<lambda>q. PostMessage q m (acc q)) ps) = map (\<lambda>q. m) (filter (\<lambda>q. q = p) ps)"
  by (induction ps) simp_all

lemma received_fanout: "received p (map (\<lambda>q. PostMessage q m (acc q)) ps) = map (\<lambda>q. m) (filter (\<lambda>q. q = p \<and> acc q) ps)"
  by (induction ps) auto

lemma reconnects_fanout: "reconnects (map (\<lambda>q. PostMessage q m (acc q)) ps) = []"
  by (induction ps) simp_all

lemma filter_eq_distinct: "distinct ps \<Longrightarrow> filter (\<lambda>q. q = p) ps = (if p \<in> set ps then [p] else [])"
  by (induction ps) auto

lemma filter_eq_accepting:
  "distinct ps \<Longrightarrow>
   filter (\<lambda>q. q = p \<and> acc q) ps = (if p \<in> set ps \<and> acc p then [p] else [])"
  by (induction ps) auto

lemma disconnect_fold:
  "fold (\<lambda>q s'. s'\<lparr>ports := set_delete p (ports s')\<rparr>) (xs :: port list) s =
     (if xs = [] then s else s\<lparr>ports := removeAll p (ports s)\<rparr>)"
  by (induction xs arbitrary: s) (simp_all add: set_delete_def)

lemma onPortMessage_cases:
  "onPortMessage m s = s \<or> (\<exists>task. onPortMessage m s = executeTask task s)"
  by (auto simp add: onPortMessage_def split: sum.splits)

lemma executeTask_frame:
  "ports (executeTask task s) = ports s"
  "messageListeners (executeTask task s) = messageListeners s"
  "disconnectListeners (executeTask task s) = disconnectListeners s"
  "reconnectAttempts (executeTask task s) = reconnectAttempts s"
  "posted p (log (executeTask task s)) = posted p (log s)"
  "reconnects (log (executeTask task s)) = reconnects (log s)"
  by (simp_all add: executeTask_def emit_def Let_def posted_append reconnects_append)

lemma onPortMessage_frame:
  "ports (onPortMessage m s) = ports s"
  "messageListeners (onPortMessage m s) = messageListeners s"
  "disconnectListeners (onPortMessage m s) = disconnectListeners s"
  "reconnectAttempts (onPortMessage m s) = reconnectAttempts s"
  "posted p (log (onPortMessage m s)) = posted p (log s)"
  "reconnects (log (onPortMessage m s)) = reconnects (log s)"
  using onPortMessage_cases[of m s] by (auto simp add: executeTask_frame)

lemma portMessage_fold_frame:
  fixes xs :: "port list"
  shows "ports (fold (\<lambda>q s'. onPortMessage m s') xs s) = ports s"
    and "messageListeners (fold (\<lambda>q s'. onPortMessage m s') xs s) = messageListeners s"
    and "disconnectListeners (fold (\<lambda>q s'. onPortMessage m s') xs s) = disconnectListeners s"
    and "reconnectAttempts (fold (\<lambda>q s'. onPortMessage m s') xs s) = reconnectAttempts s"
    and "posted p (log (fold (\<lambda>q s'. onPortMessage m s') xs s)) = posted p (log s)"
    and "reconnects (log (fold (\<lambda>q s'. onPortMessage m s') xs s)) = reconnects (log s)"
  by (induction xs arbitrary: s) (simp_all add: onPortMessage_frame)

lemma connectWebSocket_frame:
  "ports (connectWebSocket s) = ports s"
  "messageListeners (connectWebSocket s) = messageListeners s"
  "disconnectListeners (connectWebSocket s) = disconnectListeners s"
  "reconnectAttempts (connectWebSocket s) = reconnectAttempts s"
  "posted p (log (connectWebSocket s)) = posted p (log s)"
  "reconnects (log (connectWebSocket s)) = reconnects (log s)"
  by (simp_all add: connectWebSocket_def emit_def Let_def posted_append reconnects_append split: option.splits)

lemma fire_frame:
  "ports (fire cb s) = ports s"
  "messageListeners (fire cb s) = messageListeners s"
  "disconnectListeners (fire cb s) = disconnectListeners s"
  "reconnectAttempts (fire cb s) = reconnectAttempts s"
  "posted p (log (fire cb s)) = posted p (log s)"
  "reconnects (log (fire cb s)) = reconnects (log s)"
  by (simp_all add: fire_def connectWebSocket_frame setBadgeText_def emit_def posted_append reconnects_append split: callback.splits)

lemma fire_fold_frame:
  "ports (fold (\<lambda>(t', cb) s'. fire cb (s'\<lparr>now := t'\<rparr>)) xs s) = ports s"
  "messageListeners (fold (\<lambda>(t', cb) s'. fire cb (s'\<lparr>now := t'\<rparr>)) xs s) = messageListeners s"
  "disconnectListeners (fold (\<lambda>(t', cb) s'. fire cb (s'\<lparr>now := t'\<rparr>)) xs s) = disconnectListeners s"
  "reconnectAttempts (fold (\<lambda>(t', cb) s'. fire cb (s'\<lparr>now := t'\<rparr>)) xs s) = reconnectAttempts s"
  "posted p (log (fold (\<lambda>(t', cb) s'. fire cb (s'\<lparr>now := t'\<rparr>)) xs s)) = posted p (log s)"
  "reconnects (log (fold (\<lambda>(t', cb) s'. fire cb (s'\<lparr>now := t'\<rparr>)) xs s)) = reconnects (log s)"
  by (induction xs arbitrary: s) (simp_all add: fire_frame split: prod.splits)

lemma elapse_frame:
  "ports (elapse d s) = ports s"
  "messageListeners (elapse d s) = messageListeners s"
  "disconnectListeners (elapse d s) = disconnectListeners s"
  "reconnectAttempts (elapse d s) = reconnectAttempts s"
  "posted p (log (elapse d s)) = posted p (log s)"
  "reconnects (log (elapse d s)) = reconnects (log s)"
  by (simp_all add: elapse_def Let_def fire_fold_frame)

lemma ping_frame:
  "ports (ping ev s) = ports s"
  "messageListeners (ping ev s) = messageListeners s"
  "disconnectListeners (ping ev s) = disconnectListeners s"
  "reconnectAttempts (ping ev s) = reconnectAttempts s"
  "posted p (log (ping ev s)) = posted p (log s)"
  "reconnects (log (ping ev s)) = reconnects (log s)"
  by (simp_all add: ping_def emit_def posted_append reconnects_append split: option.splits)


lemma broadcast_frame:
  "ports (broadcastToPopups acc m s) = filter acc (ports s)"
  "messageListeners (broadcastToPopups acc m s) = messageListeners s"
  "disconnectListeners (broadcastToPopups acc m s) = disconnectListeners s"
  "reconnectAttempts (broadcastToPopups acc m s) = reconnectAttempts s"
  "posted p (log (broadcastToPopups acc m s)) = posted p (log s) @ map (\<lambda>q. m) (filter (\<lambda>q. q = p) (ports s))"
  "received p (log (broadcastToPopups acc m s)) = received p (log s) @ map (\<lambda>q. m) (filter (\<lambda>q. q = p \<and> acc q) (ports s))"
  "reconnects (log (broadcastToPopups acc m s)) = reconnects (log s)"
  by (simp_all add: broadcast_eq posted_append received_append reconnects_append posted_fanout received_fanout reconnects_fanout)

lemma filter_absent: "p \<notin> set ps \<Longrightarrow> filter (\<lambda>q. q = p) ps = []"
  by (induction ps) auto

lemma broadcast_posted_absent:
  "p \<notin> set (ports s) \<Longrightarrow> posted p (log (broadcastToPopups acc m s)) = posted p (log s)"
  by (simp add: broadcast_frame filter_absent)

lemma handler_frame:
  assumes "h = handleTaskUpdate \<or> h = handleBrowserState \<or> h = handleError"
  shows "ports (snd (h m s)) = ports s"
    and "messageListeners (snd (h m s)) = messageListeners s"
    and "disconnectListeners (snd (h m s)) = disconnectListeners s"
    and "reconnectAttempts (snd (h m s)) = reconnectAttempts s"
    and "posted p (log (snd (h m s))) = posted p (log s)"
    and "reconnects (log (snd (h m s))) = reconnects (log s)"
  using assms
  by (auto simp add: handleTaskUpdate_def handleBrowserState_def handleError_def emit_def
      setTimeout_def setBadgeText_def setBadgeBackgroundColor_def posted_append reconnects_append
      split: sum.splits)

lemma hwm_cases:
  "snd (handleWebSocketMessage acc m s) = broadcastToPopups acc m s
   \<or> (\<exists>h. (h = handleTaskUpdate \<or> h = handleBrowserState \<or> h = handleError)
          \<and> snd (handleWebSocketMessage acc m s) = snd (h m (broadcastToPopups acc m s)))"
  by (auto simp add: handleWebSocketMessage_def Let_def split: sum.splits)

lemma hwm_frame:
  "ports (snd (handleWebSocketMessage acc m s)) = filter acc (ports s)"
  "messageListeners (snd (handleWebSocketMessage acc m s)) = messageListeners s"
  "disconnectListeners (snd (handleWebSocketMessage acc m s)) = disconnectListeners s"
  "reconnectAttempts (snd (handleWebSocketMessage acc m s)) = reconnectAttempts s"
  "posted p (log (snd (handleWebSocketMessage acc m s))) = posted p (log (broadcastToPopups acc m s))"
  "reconnects (log (snd (handleWebSocketMessage acc m s))) = reconnects (log s)"
  using hwm_cases[of acc m s] by (auto simp add: handler_frame broadcast_frame)

lemma settle_cases:
  "settle acc k r s = s
   \<or> (\<exists>pd. settle acc k r s = s\<lparr>pending := pd\<rparr>)
   \<or> (\<exists>pd q. settle acc k r s = emit (Fetch k q) (s\<lparr>pending := pd\<rparr>))
   \<or> (\<exists>pd m. settle acc k r s = broadcastToPopups acc m (s\<lparr>pending := pd\<rparr>))"
  by (auto simp add: settle_def Let_def split: option.splits progress.splits)

lemma settle_frame:
  "set (ports (settle acc k r s)) \<subseteq> set (ports s)"
  "distinct (ports s) \<Longrightarrow> distinct (ports (settle acc k r s))"
  "messageListeners (settle acc k r s) = messageListeners s"
  "disconnectListeners (settle acc k r s) = disconnectListeners s"
  "reconnectAttempts (settle acc k r s) = reconnectAttempts s"
  "p \<notin> set (ports s) \<Longrightarrow> posted p (log (settle acc k r s)) = posted p (log s)"
  "reconnects (log (settle acc k r s)) = reconnects (log s)"
  using settle_cases[of acc k r s]
  by (auto simp add: broadcast_frame emit_def posted_append reconnects_append filter_absent)

subsection \<open>What one event can change\<close>

lemma onConnect_other: "pname p \<noteq> ''popup'' \<Longrightarrow> onConnect ev p s = s"
  by (simp add: onConnect_def)

lemma onConnect_frame:
  "set (ports (onConnect ev p s)) \<subseteq> set (ports s) \<union> {q. q = p \<and> pname q = ''popup''}"
  "distinct (ports s) \<Longrightarrow> distinct (ports (onConnect ev p s))"
  "set (messageListeners (onConnect ev p s)) \<subseteq> set (messageListeners s) \<union> {q. q = p \<and> pname q = ''popup''}"
  "set (disconnectListeners (onConnect ev p s)) \<subseteq> set (disconnectListeners s) \<union> {q. q = p \<and> pname q = ''popup''}"
  "reconnectAttempts (onConnect ev p s) = reconnectAttempts s"
  "q \<noteq> p \<Longrightarrow> posted q (log (onConnect ev p s)) = posted q (log s)"
  "reconnects (log (onConnect ev p s)) = reconnects (log s)"
  by (auto simp add: onConnect_def postMessage_def emit_def set_add_def Let_def posted_append reconnects_append)

lemma onclose_eq:
  "onclose acc s =
     (let s1 = broadcastToPopups acc (status_message ''disconnected'') s
      in if reconnectAttempts s < MAX_RECONNECT_ATTEMPTS
         then setTimeout ConnectWebSocket (RECONNECT_DELAY * (reconnectAttempts s + 1))
                (s1\<lparr>reconnectAttempts := reconnectAttempts s + 1\<rparr>)
         else s1)"
  by (simp add: onclose_def Let_def broadcast_frame)

lemma onclose_frame:
  "ports (onclose acc s) = filter acc (ports s)"
  "messageListeners (onclose acc s) = messageListeners s"
  "disconnectListeners (onclose acc s) = disconnectListeners s"
  "p \<notin> set (ports s) \<Longrightarrow> posted p (log (onclose acc s)) = posted p (log s)"
  by (simp_all add: onclose_eq Let_def setTimeout_def emit_def broadcast_frame posted_append filter_absent)

lemma onclose_attempts:
  "reconnectAttempts (onclose acc s) =
     (if reconnectAttempts s < MAX_RECONNECT_ATTEMPTS then reconnectAttempts s + 1 else reconnectAttempts s)"
  by (simp add: onclose_eq Let_def setTimeout_def emit_def broadcast_frame)

lemma onclose_reconnects:
  "reconnects (log (onclose acc s)) = reconnects (log s) @
     (if reconnectAttempts s < MAX_RECONNECT_ATTEMPTS then [RECONNECT_DELAY * (reconnectAttempts s + 1)] else [])"
  by (simp add: onclose_eq Let_def setTimeout_def emit_def broadcast_frame reconnects_append)

lemma onopen_frame:
  "ports (onopen acc s) = filter acc (ports s)"
  "messageListeners (onopen acc s) = messageListeners s"
  "disconnectListeners (onopen acc s) = disconnectListeners s"
  "reconnectAttempts (onopen acc s) = 0"
  "p \<notin> set (ports s) \<Longrightarrow> posted p (log (onopen acc s)) = posted p (log s)"
  "reconnects (log (onopen acc s)) = reconnects (log s)"
  by (simp_all add: onopen_def broadcast_frame filter_absent)

lemma onerror_frame:
  "ports (onerror acc s) = filter acc (ports s)"
  "messageListeners (onerror acc s) = messageListeners s"
  "disconnectListeners (onerror acc s) = disconnectListeners s"
  "reconnectAttempts (onerror acc s) = reconnectAttempts s"
  "p \<notin> set (ports s) \<Longrightarrow> posted p (log (onerror acc s)) = posted p (log s)"
  "reconnects (log (onerror acc s)) = reconnects (log s)"
  by (simp_all add: onerror_def broadcast_frame filter_absent)

lemma onmessage_frame:
  "set (ports (onmessage acc parsed s)) \<subseteq> set (ports s)"
  "distinct (ports s) \<Longrightarrow> distinct (ports (onmessage acc parsed s))"
  "messageListeners (onmessage acc parsed s) = messageListeners s"
  "disconnectListeners (onmessage acc parsed s) = disconnectListeners s"
  "reconnectAttempts (onmessage acc parsed s) = reconnectAttempts s"
  "p \<notin> set (ports s) \<Longrightarrow> posted p (log (onmessage acc parsed s)) = posted p (log s)"
  "reconnects (log (onmessage acc parsed s)) = reconnects (log s)"
  by (auto simp add: onmessage_def hwm_frame broadcast_frame filter_absent split: option.splits)

lemma disconnect_frame:
  "set (ports (step ev (PortDisconnect p) s)) \<subseteq> set (ports s)"
  "distinct (ports s) \<Longrightarrow> distinct (ports (step ev (PortDisconnect p) s))"
  "messageListeners (step ev (PortDisconnect p) s) = messageListeners s"
  "disconnectListeners (step ev (PortDisconnect p) s) = disconnectListeners s"
  "reconnectAttempts (step ev (PortDisconnect p) s) = reconnectAttempts s"
  "log (step ev (PortDisconnect p) s) = log s"
  by (auto simp add: disconnect_fold distinct_removeAll)

lemma step_ports_subset:
  "set (ports (step ev e s)) \<subseteq> set (ports s) \<union> {p. e = PortConnect p \<and> pname p = ''popup''}"
proof (cases e)
  case (PortConnect p)
  then show ?thesis using onConnect_frame(1)[of ev p s] by auto
next
  case (PortDisconnect p)
  then show ?thesis using disconnect_frame(1)[of ev p s] by auto
next
  case (SocketMessage parsed)
  then show ?thesis using onmessage_frame(1)[of "accepts ev" parsed s] by auto
next
  case (Settle k r)
  then show ?thesis using settle_frame(1)[of "accepts ev" k r s] by auto
qed (auto simp add: connectWebSocket_frame onopen_frame onclose_frame onerror_frame
       portMessage_fold_frame elapse_frame ping_frame)

lemma step_distinct:
  "distinct (ports s) \<Longrightarrow> distinct (ports (step ev e s))"
  by (cases e) (simp_all add: connectWebSocket_frame onopen_frame onclose_frame onerror_frame
       portMessage_fold_frame elapse_frame ping_frame onConnect_frame onmessage_frame settle_frame
       disconnect_frame del: step.simps(7))

lemma step_messageListeners:
  "set (messageListeners (step ev e s)) \<subseteq> set (messageListeners s) \<union> {p. e = PortConnect p \<and> pname p = ''popup''}"
proof (cases e)
  case (PortConnect p)
  then show ?thesis using onConnect_frame(3)[of ev p s] by auto
qed (simp_all add: connectWebSocket_frame onopen_frame onclose_frame onerror_frame
       portMessage_fold_frame elapse_frame ping_frame onmessage_frame settle_frame
       disconnect_frame del: step.simps(7))

lemma step_posted_absent:
  "p \<notin> set (ports s) \<Longrightarrow> e \<noteq> PortConnect p \<Longrightarrow> posted p (log (step ev e s)) = posted p (log s)"
  by (cases e) (simp_all add: connectWebSocket_frame onopen_frame onclose_frame onerror_frame
       portMessage_fold_frame elapse_frame ping_frame onmessage_frame settle_frame onConnect_frame
       disconnect_frame del: step.simps(7))

lemma step_attempts:
  "e \<noteq> SocketOpen \<Longrightarrow> e \<noteq> SocketClose \<Longrightarrow> reconnectAttempts (step ev e s) = reconnectAttempts s"
  by (cases e) (simp_all add: connectWebSocket_frame onerror_frame
       portMessage_fold_frame elapse_frame ping_frame onmessage_frame settle_frame onConnect_frame
       disconnect_frame del: step.simps(7))

lemma step_reconnects:
  "e \<noteq> SocketClose \<Longrightarrow> reconnects (log (step ev e s)) = reconnects (log s)"
  by (cases e) (simp_all add: connectWebSocket_frame onerror_frame onopen_frame
       portMessage_fold_frame elapse_frame ping_frame onmessage_frame settle_frame onConnect_frame
       disconnect_frame del: step.simps(7))

subsection \<open>Runs\<close>

lemma boot_facts:
  "ports boot = []" "messageListeners boot = []" "disconnectListeners boot = []"
  "reconnectAttempts boot = 0" "posted p (log boot) = []" "reconnects (log boot) = []"
  by (simp_all add: boot_def initial_def connectWebSocket_def emit_def)

lemma run_append: "run (tr @ tr') s = run tr' (run tr s)"
  by (induction tr arbitrary: s) auto

lemma run_distinct: "distinct (ports s) \<Longrightarrow> distinct (ports (run tr s))"
  by (induction tr arbitrary: s) (auto simp add: step_distinct)

lemma run_absent:
  assumes "p \<notin> set (ports s)" and "\<forall>(ev, e) \<in> set tr. e \<noteq> PortConnect p"
  shows "p \<notin> set (ports (run tr s)) \<and> posted p (log (run tr s)) = posted p (log s)"
  using assms
proof (induction tr arbitrary: s)
  case Nil
  then show ?case by simp
next
  case (Cons x tr)
  obtain ev e where x: "x = (ev, e)" by (cases x)
  have e: "e \<noteq> PortConnect p" using Cons.prems(2) x by auto
  have "p \<notin> set (ports (step ev e s))"
    using step_ports_subset[of ev e s] Cons.prems(1) e by auto
  moreover have "posted p (log (step ev e s)) = posted p (log s)"
    using Cons.prems(1) e by (rule step_posted_absent)
  ultimately show ?case
    using Cons.IH[of "step ev e s"] Cons.prems(2) x by simp
qed

lemma run_not_popup:
  assumes "pname p \<noteq> ''popup''"
    and "p \<notin> set (ports s)" and "p \<notin> set (messageListeners s)"
  shows "p \<notin> set (ports (run tr s)) \<and> p \<notin> set (messageListeners (run tr s))
       \<and> posted p (log (run tr s)) = posted p (log s)"
  using assms(2,3)
proof (induction tr arbitrary: s)
  case Nil
  then show ?case by simp
next
  case (Cons x tr)
  obtain ev e where x: "x = (ev, e)" by (cases x)
  show ?case
  proof (cases "e = PortConnect p")
    case True
    then have "step ev e s = s" using assms(1) by (simp add: onConnect_other)
    then show ?thesis using Cons x by simp
  next
    case False
    have "p \<notin> set (ports (step ev e s))"
      using step_ports_subset[of ev e s] Cons.prems(1) False by auto
    moreover have "p \<notin> set (messageListeners (step ev e s))"
      using step_messageListeners[of ev e s] Cons.prems(2) False by auto
    moreover have "posted p (log (step ev e s)) = posted p (log s)"
      using Cons.prems(1) False by (rule step_posted_absent)
    ultimately show ?thesis
      using Cons.IH[of "step ev e s"] x by simp
  qed
qed

lemma run_ports_popup:
  "\<forall>q \<in> set (ports s). pname q = ''popup'' \<Longrightarrow> \<forall>q \<in> set (ports (run tr s)). pname q = ''popup''"
proof (induction tr arbitrary: s)
  case Nil
  then show ?case by simp
next
  case (Cons x tr)
  obtain ev e where x: "x = (ev, e)" by (cases x)
  have "\<forall>q \<in> set (ports (step ev e s)). pname q = ''popup''"
    using step_ports_subset[of ev e s] Cons.prems by auto
  then show ?case using Cons.IH[of "step ev e s"] x by simp
qed

lemma silent_listener_absent:
  "p \<notin> set (messageListeners s) \<Longrightarrow> step ev (PortMessage p m) s = s"
  by (simp add: filter_absent)

subsection \<open>Reconnects of a run in which no socket opens\<close>

lemma upt_front: "a < b \<Longrightarrow> a # [Suc a..<b] = [a..<b]"
  by (simp add: upt_conv_Cons)

lemma run_without_open:
  assumes "never_opens tr" and "reconnectAttempts s \<le> MAX_RECONNECT_ATTEMPTS"
  shows "reconnectAttempts (run tr s) = min MAX_RECONNECT_ATTEMPTS (reconnectAttempts s + closes tr)
       \<and> reconnects (log (run tr s)) = reconnects (log s) @
           map (\<lambda>k. RECONNECT_DELAY * k)
             [Suc (reconnectAttempts s) ..< Suc (min MAX_RECONNECT_ATTEMPTS (reconnectAttempts s + closes tr))]"
  using assms
proof (induction tr arbitrary: s)
  case Nil
  then show ?case by simp
next
  case (Cons x tr)
  obtain ev e where x: "x = (ev, e)" by (cases x)
  have no: "e \<noteq> SocketOpen" "never_opens tr"
    using Cons.prems(1) x by (cases e; simp)+
  show ?case
  proof (cases "e = SocketClose")
    case False
    have c: "closes (x # tr) = closes tr"
      using False x by (cases e) simp_all
    have "reconnectAttempts (step ev e s) = reconnectAttempts s"
      using no(1) False by (rule step_attempts)
    moreover have "reconnects (log (step ev e s)) = reconnects (log s)"
      using False by (rule step_reconnects)
    ultimately show ?thesis
      using Cons.IH[of "step ev e s"] no(2) Cons.prems(2) x c by simp
  next
    case True
    have c: "closes (x # tr) = Suc (closes tr)"
      using True x by simp
    show ?thesis
    proof (cases "reconnectAttempts s < MAX_RECONNECT_ATTEMPTS")
      case lt: True
      have a: "reconnectAttempts (step ev e s) = Suc (reconnectAttempts s)"
        using True lt by (simp add: onclose_attempts)
      have r: "reconnects (log (step ev e s)) = reconnects (log s) @ [RECONNECT_DELAY * Suc (reconnectAttempts s)]"
        using True lt by (simp add: onclose_reconnects)
      have le: "reconnectAttempts (step ev e s) \<le> MAX_RECONNECT_ATTEMPTS"
        using a lt by simp
      have u: "Suc (reconnectAttempts s) # [Suc (Suc (reconnectAttempts s)) ..< Suc (min MAX_RECONNECT_ATTEMPTS (Suc (reconnectAttempts s) + closes tr))]
          = [Suc (reconnectAttempts s) ..< Suc (min MAX_RECONNECT_ATTEMPTS (Suc (reconnectAttempts s) + closes tr))]"
        using lt by (intro upt_front) simp
      show ?thesis
        using Cons.IH[OF no(2) le] x c a r u[symmetric] by simp
    next
      case ge: False
      have a: "reconnectAttempts (step ev e s) = reconnectAttempts s"
        using True ge by (simp add: onclose_attempts)
      have r: "reconnects (log (step ev e s)) = reconnects (log s)"
        using True ge by (simp add: onclose_reconnects)
      have m: "reconnectAttempts s = MAX_RECONNECT_ATTEMPTS"
        using ge Cons.prems(2) by simp
      show ?thesis
        using Cons.IH[of "step ev e s"] no(2) Cons.prems(2) x c a r m by simp
    qed
  qed
qed

lemma step_attempts_close: "reconnectAttempts s \<le> reconnectAttempts (step ev SocketClose s)"
  by (simp add: onclose_attempts)

subsection \<open>The handlers of the router and the resumptions of \<open>executeTask\<close>\<close>

lemma handler_log:
  assumes "h = handleTaskUpdate \<or> h = handleBrowserState \<or> h = handleError"
  shows "\<exists>fx. log (snd (h m s)) = log s @ fx \<and> list_all side_effect fx"
  using assms
  by (auto simp add: handleTaskUpdate_def handleBrowserState_def handleError_def emit_def
      setTimeout_def setBadgeText_def setBadgeBackgroundColor_def split: sum.splits)

lemma resume_create_failed:
  "fetch_failed r \<Longrightarrow> \<exists>msg. executeTask_resume AwaitCreate r = Done (error_event msg)"
  by (cases r) (simp_all add: executeTask_resume_def error_event_def)

lemma resume_execute_failed:
  "fetch_failed r \<Longrightarrow> \<exists>msg. executeTask_resume (AwaitExecute taskData) r = Done (error_event msg)"
  by (cases r) (simp_all add: executeTask_resume_def error_event_def)

lemma resume_json:
  "get_prop taskData ''task_id'' = Inr tid \<Longrightarrow>
   executeTask_resume AwaitJson (JsonOk taskData) = Await (Some (ExecuteTask tid)) (AwaitExecute taskData)"
  by (simp add: executeTask_resume_def)

lemma resume_created:
  "get_prop taskData ''task_id'' = Inr tid \<Longrightarrow>
   executeTask_resume (AwaitExecute taskData) (Response True) = Done (task_created tid)"
  by (simp add: executeTask_resume_def task_created_def)

lemma resume_create_ok:
  "executeTask_resume AwaitCreate (Response True) = Await None AwaitJson"
  by (simp add: executeTask_resume_def)

lemma map_of_filter_out: "map_of (filter (\<lambda>(j, d). j \<noteq> k) xs) k = None"
  by (induction xs) auto

lemma settle_done:
  "map_of (pending s) k = Some c \<Longrightarrow> executeTask_resume c r = Done m \<Longrightarrow>
   settle acc k r s = broadcastToPopups acc m (s\<lparr>pending := filter (\<lambda>(j, d). j \<noteq> k) (pending s)\<rparr>)"
  by (simp add: settle_def)

lemma settle_finished:
  "map_of (pending s) k = None \<Longrightarrow> settle acc k r s = s"
  by (simp add: settle_def)

lemma broadcast_pending: "pending (broadcastToPopups acc m s) = pending s"
  by (simp add: broadcast_eq)

lemma typed_has_error_prop:
  "get_prop m ''type'' = Inr t \<Longrightarrow> \<exists>v. get_prop m ''error'' = Inr v"
  by (cases m) simp_all

lemma completed_sets_timer:
  "handleTaskUpdate (task_update ''completed'') s =
     (None, s\<lparr>badgeText := BadgeCheck,
              timers := timers s @ [(now s + 3000, ClearBadgeText)],
              log := log s @ [SetBadgeText BadgeCheck, SetBadgeBackgroundColor ''#4CAF50'',
                              SetTimeout ClearBadgeText 3000]\<rparr>)"
  by (simp add: handleTaskUpdate_def task_update_def setTimeout_def setBadgeText_def
      setBadgeBackgroundColor_def emit_def)

lemma failed_sets_no_timer:
  "handleTaskUpdate (task_update ''failed'') s =
     (None, s\<lparr>badgeText := BadgeBang,
              log := log s @ [SetBadgeText BadgeBang, SetBadgeBackgroundColor ''#F44336'']\<rparr>)"
  by (simp add: handleTaskUpdate_def task_update_def setBadgeText_def
      setBadgeBackgroundColor_def emit_def)

subsection \<open>The Set follows the registrations\<close>

lemma registry_tracks_operations:
  assumes "registrations_only tr" and "set (ports s) \<subseteq> set (disconnectListeners s)"
  shows "set (ports (run tr s)) = spec_registered (set (ports s)) tr"
  using assms
proof (induction tr arbitrary: s)
  case Nil
  then show ?case by simp
next
  case (Cons x tr)
  obtain ev e where x: "x = (ev, e)" by (cases x)
  show ?case
  proof (cases e)
    case (PortConnect p)
    have ok: "pname p = ''popup''" "accepts ev p" "registrations_only tr"
      using Cons.prems(1) x PortConnect by simp_all
    have a: "set (ports (step ev e s)) = insert p (set (ports s))"
      using ok PortConnect by (auto simp add: onConnect_def postMessage_def emit_def set_add_def Let_def)
    have b: "set (ports (step ev e s)) \<subseteq> set (disconnectListeners (step ev e s))"
      using ok PortConnect Cons.prems(2)
      by (auto simp add: onConnect_def postMessage_def emit_def set_add_def Let_def)
    show ?thesis
      using Cons.IH[OF ok(3) b] x PortConnect a by simp
  next
    case (PortDisconnect p)
    have ok: "registrations_only tr"
      using Cons.prems(1) x PortDisconnect by simp
    have a: "set (ports (step ev e s)) = set (ports s) - {p}"
      using PortDisconnect Cons.prems(2) by (auto simp add: disconnect_fold filter_empty_conv)
    have b: "set (ports (step ev e s)) \<subseteq> set (disconnectListeners (step ev e s))"
      using PortDisconnect Cons.prems(2) by (auto simp add: disconnect_fold)
    show ?thesis
      using Cons.IH[OF ok b] x PortDisconnect a by simp
  qed (use Cons.prems(1) x in simp_all)
qed

lemma registry_tracks_from_boot:
  "registrations_only tr \<Longrightarrow> set (ports (run tr boot)) = spec_registered {} tr"
  using registry_tracks_operations[of tr boot] by (simp add: boot_facts)

subsection \<open>Unfolding the model on concrete inputs\<close>

lemmas sample_defs = popup1_def popup2_def options3_def all_ok_def popup1_broken_def

lemmas run_defs = boot_def initial_def connectWebSocket_def emit_def onConnect_def postMessage_def
  set_add_def set_delete_def Let_def broadcast_eq onopen_def onclose_def onerror_def
  onmessage_def handleWebSocketMessage_def handleTaskUpdate_def handleBrowserState_def
  handleError_def setTimeout_def setBadgeText_def setBadgeBackgroundColor_def
  executeTask_def executeTask_resume_def settle_def onPortMessage_def fire_def elapse_def ping_def
  MAX_RECONNECT_ATTEMPTS_def RECONNECT_DELAY_def

subsection \<open>The sample runs, evaluated\<close>

lemma submitted_state: "run submitted boot =
      \<lparr>ws = Some 0, reconnectAttempts = 0, ports = [popup1, popup2], sockets = 1,
       disconnectListeners = [popup1, popup2], messageListeners = [popup1, popup2],
       timers = [], now = 0, badgeText = BadgeEmpty, invocations = 1,
       pending = [(0, AwaitCreate)],
       log = [NewWebSocket 0,
          PostMessage popup1 (status_message ''disconnected'') True,
          PostMessage popup2 (status_message ''disconnected'') True,
          Fetch 0 (CreateTask (JStr ''open the inbox''))]\<rparr>"
  by (simp add: submitted_def submit_request_def sample_defs run_defs)

lemma created_t1_state: "run created_t1 boot =
      \<lparr>ws = Some 0, reconnectAttempts = 0, ports = [popup1, popup2], sockets = 1,
       disconnectListeners = [popup1, popup2], messageListeners = [popup1, popup2],
       timers = [], now = 0, badgeText = BadgeEmpty, invocations = 1,
       pending = [(0, AwaitExecute (JObj [(''task_id'', JStr ''t1'')]))],
       log = [NewWebSocket 0,
          PostMessage popup1 (status_message ''disconnected'') True,
          PostMessage popup2 (status_message ''disconnected'') True,
          Fetch 0 (CreateTask (JStr ''open the inbox'')),
          Fetch 0 (ExecuteTask (JStr ''t1''))]\<rparr>"
  by (simp add: created_t1_def run_append submitted_state settle_def executeTask_resume_def emit_def)

lemma completed_then_failed_state:
  "run completed_then_failed boot =
     \<lparr>ws = Some 0, reconnectAttempts = 0, ports = [], sockets = 1,
      disconnectListeners = [], messageListeners = [],
      timers = [(3000, ClearBadgeText)], now = 1000, badgeText = BadgeBang,
      invocations = 0, pending = [],
      log = [NewWebSocket 0,
             Broadcast (task_update ''completed''),
             SetBadgeText BadgeCheck, SetBadgeBackgroundColor ''#4CAF50'',
             SetTimeout ClearBadgeText 3000,
             Broadcast (task_update ''failed''),
             SetBadgeText BadgeBang, SetBadgeBackgroundColor ''#F44336'']\<rparr>"
  by (simp add: completed_then_failed_def task_update_def all_ok_def run_defs)

lemma registry_ops_state:
  "ports (run registry_ops boot) = [popup1]"
  "log (run registry_ops boot) =
     [NewWebSocket 0,
      PostMessage popup1 (status_message ''disconnected'') True,
      PostMessage popup2 (status_message ''disconnected'') True,
      PostMessage popup1 (status_message ''disconnected'') True]"
  by (simp_all add: registry_ops_def sample_defs run_defs)

section \<open>The claims\<close>

subsection \<open>The Port Registry\<close>

text \<open>
  Claim C1. After any sequence of events (ports connecting and disconnecting among them),
  \<open>broadcastToPopups(e)\<close> calls \<open>postMessage(e)\<close> exactly once on every port that is
  in the Set at the moment of the call and on no other port; the call delivers \<open>e\<close>
  where the channel accepts it, so every registered port whose channel accepts receives
  \<open>e\<close> exactly once and no unregistered port receives anything. After a sequence of
  registrations and unregistrations only, the ports in the Set are exactly the surfaces
  registered in the specification's sense.
\<close>

theorem broadcast_exactly_once:
  "posted p (log (broadcastToPopups acc e (run tr boot))) =
     posted p (log (run tr boot)) @ (if p \<in> set (ports (run tr boot)) then [e] else [])
   \<and> received p (log (broadcastToPopups acc e (run tr boot))) =
     received p (log (run tr boot)) @ (if p \<in> set (ports (run tr boot)) \<and> acc p then [e] else [])
   \<and> (registrations_only tr \<longrightarrow> set (ports (run tr boot)) = spec_registered {} tr)"
proof -
  have "distinct (ports (run tr boot))"
    by (rule run_distinct) (simp add: boot_facts)
  then show ?thesis
    by (simp add: broadcast_frame filter_eq_distinct filter_eq_accepting registry_tracks_from_boot)
qed

theorem broadcast_exactly_once_witness:
  "registrations_only registry_ops
   \<and> spec_registered {} registry_ops = {popup1}
   \<and> posted popup1 (log (broadcastToPopups (accepts all_ok) (JStr ''e'') (run registry_ops boot)))
       = posted popup1 (log (run registry_ops boot)) @ [JStr ''e'']
   \<and> posted popup2 (log (broadcastToPopups (accepts all_ok) (JStr ''e'') (run registry_ops boot)))
       = posted popup2 (log (run registry_ops boot))
   \<and> posted options3 (log (broadcastToPopups (accepts all_ok) (JStr ''e'') (run registry_ops boot)))
       = []
   \<and> received popup1 (log (broadcastToPopups (accepts all_ok) (JStr ''e'') (run registry_ops boot)))
       = [status_message ''disconnected'', status_message ''disconnected'', JStr ''e'']"
proof -
  have p: "popup2 \<noteq> popup1" "options3 \<noteq> popup1" "options3 \<noteq> popup2"
    by (simp_all add: sample_defs)
  have h: "registrations_only registry_ops"
    by (simp add: registry_ops_def sample_defs)
  have r: "spec_registered {} registry_ops = {popup1}"
    using p by (auto simp add: registry_ops_def)
  show ?thesis
    using broadcast_exactly_once[where p = popup1 and acc = "accepts all_ok" and e = "JStr ''e''" and tr = registry_ops]
      broadcast_exactly_once[where p = popup2 and acc = "accepts all_ok" and e = "JStr ''e''" and tr = registry_ops]
      broadcast_exactly_once[where p = options3 and acc = "accepts all_ok" and e = "JStr ''e''" and tr = registry_ops]
      p h r
    by (simp add: registry_ops_state all_ok_def)
qed

text \<open>
  Claim C9. A port whose name is not \<open>popup\<close> is never in the Set, is never posted a
  message (neither the initial status nor a broadcast), its connecting changes nothing,
  and a message it sends changes nothing (no listener is attached, so no request is
  issued). Every port in the Set is named \<open>popup\<close>, after every sequence of events.
\<close>

theorem registry_only_popup:
  assumes "pname p \<noteq> ''popup''"
  shows "p \<notin> set (ports (run tr boot))
       \<and> posted p (log (run tr boot)) = []
       \<and> step ev (PortConnect p) (run tr boot) = run tr boot
       \<and> step ev (PortMessage p m) (run tr boot) = run tr boot
       \<and> (\<forall>q \<in> set (ports (run tr boot)). pname q = ''popup'')"
proof -
  have a: "p \<notin> set (ports (run tr boot)) \<and> p \<notin> set (messageListeners (run tr boot))
       \<and> posted p (log (run tr boot)) = posted p (log boot)"
    using assms by (intro run_not_popup) (simp_all add: boot_facts)
  have b: "\<forall>q \<in> set (ports (run tr boot)). pname q = ''popup''"
    by (rule run_ports_popup) (simp add: boot_facts)
  show ?thesis
    using a b assms
    by (simp add: boot_facts onConnect_other silent_listener_absent del: step.simps(8))
qed

theorem registry_only_popup_witness:
  "pname options3 \<noteq> ''popup''
   \<and> ports (run [(all_ok, PortConnect popup1), (all_ok, PortConnect options3), (all_ok, SocketOpen)] boot)
       = [popup1]
   \<and> posted options3
        (log (run [(all_ok, PortConnect popup1), (all_ok, PortConnect options3), (all_ok, SocketOpen)] boot))
       = []
   \<and> posted popup1
        (log (run [(all_ok, PortConnect popup1), (all_ok, PortConnect options3), (all_ok, SocketOpen)] boot))
       = [status_message ''disconnected'', status_message ''connected'']"
proof -
  have h: "pname options3 \<noteq> ''popup''" by (simp add: options3_def)
  show ?thesis
    using h registry_only_popup[OF h,
        of "[(all_ok, PortConnect popup1), (all_ok, PortConnect options3), (all_ok, SocketOpen)]"]
    by (simp add: sample_defs run_defs)
qed

text \<open>
  Claim C2. When the \<open>postMessage\<close> to a registered port \<open>p\<close> throws during
  \<open>broadcastToPopups(e)\<close>, then \<open>p\<close> is no longer in the Set afterwards; as long as
  \<open>p\<close> does not connect again, nothing more is ever posted to it, whatever events
  follow; and every port that was in the Set at the call is still posted \<open>e\<close> exactly
  once, and stays registered and receives \<open>e\<close> if its own channel accepts. The
  broadcast is a total function of the state: it always runs to its end.
\<close>

theorem broadcast_failed_delivery:
  assumes "p \<in> set (ports (run tr boot))" and "\<not> acc p"
  shows "p \<notin> set (ports (broadcastToPopups acc e (run tr boot)))
     \<and> ((\<forall>(ev, x) \<in> set tr'. x \<noteq> PortConnect p) \<longrightarrow>
          posted p (log (run tr' (broadcastToPopups acc e (run tr boot))))
            = posted p (log (broadcastToPopups acc e (run tr boot))))
     \<and> (\<forall>q \<in> set (ports (run tr boot)).
          posted q (log (broadcastToPopups acc e (run tr boot))) = posted q (log (run tr boot)) @ [e]
          \<and> (acc q \<longrightarrow> q \<in> set (ports (broadcastToPopups acc e (run tr boot)))
                \<and> received q (log (broadcastToPopups acc e (run tr boot)))
                    = received q (log (run tr boot)) @ [e]))"
proof -
  let ?s = "run tr boot"
  let ?s' = "broadcastToPopups acc e ?s"
  have d: "distinct (ports ?s)"
    by (rule run_distinct) (simp add: boot_facts)
  have gone: "p \<notin> set (ports ?s')"
    using assms(2) by (simp add: broadcast_frame)
  have later: "(\<forall>(ev, x) \<in> set tr'. x \<noteq> PortConnect p) \<longrightarrow>
      posted p (log (run tr' ?s')) = posted p (log ?s')"
    using run_absent[OF gone, of tr'] by blast
  have others: "posted q (log ?s') = posted q (log ?s) @ [e]
      \<and> (acc q \<longrightarrow> q \<in> set (ports ?s') \<and> received q (log ?s') = received q (log ?s) @ [e])"
    if q: "q \<in> set (ports ?s)" for q
    using d q by (simp add: broadcast_frame filter_eq_distinct filter_eq_accepting)
  show ?thesis using gone later others by blast
qed

theorem broadcast_failed_delivery_witness:
  "popup1 \<in> set (ports (run [(all_ok, PortConnect popup1), (all_ok, PortConnect popup2)] boot))
   \<and> \<not> accepts popup1_broken popup1
   \<and> ports (broadcastToPopups (accepts popup1_broken) (JStr ''e'')
        (run [(all_ok, PortConnect popup1), (all_ok, PortConnect popup2)] boot)) = [popup2]
   \<and> received popup2 (log (broadcastToPopups (accepts popup1_broken) (JStr ''e'')
        (run [(all_ok, PortConnect popup1), (all_ok, PortConnect popup2)] boot)))
       = [status_message ''disconnected'', JStr ''e'']
   \<and> posted popup1 (log (run [(all_ok, SocketError)] (broadcastToPopups (accepts popup1_broken) (JStr ''e'')
        (run [(all_ok, PortConnect popup1), (all_ok, PortConnect popup2)] boot))))
       = [status_message ''disconnected'', JStr ''e'']"
proof -
  have h1: "popup1 \<in> set (ports (run [(all_ok, PortConnect popup1), (all_ok, PortConnect popup2)] boot))"
    by (simp add: sample_defs run_defs)
  have h2: "\<not> accepts popup1_broken popup1"
    by (simp add: sample_defs)
  show ?thesis
    using h1 h2 broadcast_failed_delivery[where p = popup1 and acc = "accepts popup1_broken"
        and tr = "[(all_ok, PortConnect popup1), (all_ok, PortConnect popup2)]"
        and tr' = "[(all_ok, SocketError)]" and e = "JStr ''e''", OF h1 h2]
    by (simp add: sample_defs run_defs)
qed

subsection \<open>The Connection Manager\<close>

text \<open>
  Claim C3. From a state with the attempt counter at 0, in every run in which no socket
  opens (whatever else happens: timers firing, calls of \<open>connectWebSocket\<close>, errors,
  frames, ports), the \<open>n\<close>-th close schedules a reconnect after \<open>n\<close> times
  \<open>RECONNECT_DELAY\<close> for \<open>n\<close> from 1 to 5, and no close after the fifth schedules
  anything. The open of a socket puts the counter back to 0, so the same holds for every
  stretch of a run that follows an open.
\<close>

theorem reconnect_linear_backoff:
  assumes "reconnectAttempts s = 0" and "never_opens tr"
  shows "reconnects (log (run tr s)) = reconnects (log s) @
           map (\<lambda>k. RECONNECT_DELAY * k) [1 ..< Suc (min MAX_RECONNECT_ATTEMPTS (closes tr))]
       \<and> reconnectAttempts (step ev SocketOpen s') = 0"
  using run_without_open[OF assms(2), of s] assms(1) by (simp add: onopen_frame)

theorem reconnect_linear_backoff_witness:
  "reconnectAttempts boot = 0
   \<and> never_opens [(all_ok, SocketClose), (all_ok, Elapse 1000), (all_ok, SocketClose), (all_ok, Elapse 2000),
        (all_ok, SocketClose), (all_ok, Elapse 3000), (all_ok, SocketClose), (all_ok, Elapse 4000),
        (all_ok, SocketClose), (all_ok, Elapse 5000), (all_ok, SocketClose), (all_ok, Connect),
        (all_ok, SocketClose)]
   \<and> reconnects (log (run [(all_ok, SocketClose), (all_ok, Elapse 1000), (all_ok, SocketClose), (all_ok, Elapse 2000),
        (all_ok, SocketClose), (all_ok, Elapse 3000), (all_ok, SocketClose), (all_ok, Elapse 4000),
        (all_ok, SocketClose), (all_ok, Elapse 5000), (all_ok, SocketClose), (all_ok, Connect),
        (all_ok, SocketClose)] boot))
      = [1000, 2000, 3000, 4000, 5000]"
proof -
  have h1: "reconnectAttempts boot = 0" by (simp add: boot_facts)
  have h2: "never_opens [(all_ok, SocketClose), (all_ok, Elapse 1000), (all_ok, SocketClose), (all_ok, Elapse 2000),
        (all_ok, SocketClose), (all_ok, Elapse 3000), (all_ok, SocketClose), (all_ok, Elapse 4000),
        (all_ok, SocketClose), (all_ok, Elapse 5000), (all_ok, SocketClose), (all_ok, Connect),
        (all_ok, SocketClose)]" by simp
  have u: "[1 ..< 6] = [1, 2, 3, 4, 5::nat]" by (simp add: upt_conv_Cons)
  show ?thesis
    using h1 h2 reconnect_linear_backoff[OF h1 h2] u
    by (simp add: boot_facts MAX_RECONNECT_ATTEMPTS_def RECONNECT_DELAY_def)
qed

text \<open>
  Claim C10. \<open>connectWebSocket\<close> leaves the attempt counter as it is; the only event
  that can lower the counter is the open of a socket, which sets it to 0; and once the
  counter is at the ceiling, no run without an open (a call of \<open>connectWebSocket\<close>
  followed by a close, for one) schedules a reconnect or moves the counter.
\<close>

theorem counter_reset_only_on_open:
  "reconnectAttempts (connectWebSocket s) = reconnectAttempts s
   \<and> (reconnectAttempts (step ev e s) < reconnectAttempts s \<longrightarrow> e = SocketOpen)
   \<and> reconnectAttempts (step ev SocketOpen s) = 0
   \<and> (reconnectAttempts s = MAX_RECONNECT_ATTEMPTS \<and> never_opens tr \<longrightarrow>
        reconnects (log (run tr s)) = reconnects (log s)
        \<and> reconnectAttempts (run tr s) = MAX_RECONNECT_ATTEMPTS)"
proof -
  have a: "reconnectAttempts (step ev e s) < reconnectAttempts s \<longrightarrow> e = SocketOpen"
  proof (cases "e = SocketClose")
    case True
    then show ?thesis using step_attempts_close[of s ev] by simp
  next
    case False
    show ?thesis
    proof (cases "e = SocketOpen")
      case True
      then show ?thesis by simp
    next
      case other: False
      have "reconnectAttempts (step ev e s) = reconnectAttempts s"
        using other False by (rule step_attempts)
      then show ?thesis by simp
    qed
  qed
  have b: "reconnects (log (run tr s)) = reconnects (log s)
        \<and> reconnectAttempts (run tr s) = MAX_RECONNECT_ATTEMPTS"
    if "reconnectAttempts s = MAX_RECONNECT_ATTEMPTS" and "never_opens tr"
    using run_without_open[OF that(2), of s] that(1) by simp
  show ?thesis
    using a b by (simp add: connectWebSocket_frame onopen_frame)
qed

theorem counter_reset_only_on_open_witness:
  "reconnectAttempts (run five_closes boot) = MAX_RECONNECT_ATTEMPTS
   \<and> never_opens [(all_ok, Connect), (all_ok, SocketClose)]
   \<and> reconnects (log (run [(all_ok, Connect), (all_ok, SocketClose)] (run five_closes boot)))
       = [1000, 2000, 3000, 4000, 5000]
   \<and> reconnectAttempts (run [(all_ok, Connect), (all_ok, SocketClose)] (run five_closes boot)) = 5
   \<and> reconnectAttempts (step all_ok SocketOpen (run five_closes boot))
       < reconnectAttempts (run five_closes boot)"
proof -
  have h1: "reconnectAttempts (run five_closes boot) = MAX_RECONNECT_ATTEMPTS"
    by (simp add: five_closes_def sample_defs run_defs)
  have h2: "never_opens [(all_ok, Connect), (all_ok, SocketClose)]" by simp
  have r: "reconnects (log (run five_closes boot)) = [1000, 2000, 3000, 4000, 5000]"
    by (simp add: five_closes_def sample_defs run_defs)
  show ?thesis
    using h1 h2 r counter_reset_only_on_open[of "run five_closes boot" all_ok SocketOpen
        "[(all_ok, Connect), (all_ok, SocketClose)]"]
    by (simp add: MAX_RECONNECT_ATTEMPTS_def)
qed

subsection \<open>The Message Router\<close>

text \<open>
  Claim C6. For every value handed to \<open>handleWebSocketMessage\<close>, the log is extended
  by the entry into \<open>broadcastToPopups\<close> with that very value and the post to every
  registered port first, and only then by side effects of a handler. When the value has
  a \<open>type\<close> that is none of \<open>task_update\<close>, \<open>browser_state\<close> and \<open>error\<close>
  (a missing type among them; only \<open>null\<close> has no readable type), the router throws
  nothing and leaves exactly the state of the broadcast.
\<close>

theorem router_broadcasts_first:
  "(\<exists>fx. log (snd (handleWebSocketMessage acc m s)) =
           log s @ Broadcast m # map (\<lambda>p. PostMessage p m (acc p)) (ports s) @ fx
         \<and> list_all side_effect fx)
   \<and> (get_prop m ''type'' = Inr t \<and> \<not> recognized t \<longrightarrow>
        handleWebSocketMessage acc m s = (None, broadcastToPopups acc m s))"
proof -
  have a: "\<exists>fx. log (snd (handleWebSocketMessage acc m s)) =
           log s @ Broadcast m # map (\<lambda>p. PostMessage p m (acc p)) (ports s) @ fx
         \<and> list_all side_effect fx"
  proof -
    consider (plain) "snd (handleWebSocketMessage acc m s) = broadcastToPopups acc m s"
      | (handled) h where "h = handleTaskUpdate \<or> h = handleBrowserState \<or> h = handleError"
          and "snd (handleWebSocketMessage acc m s) = snd (h m (broadcastToPopups acc m s))"
      using hwm_cases[of acc m s] by blast
    then show ?thesis
    proof cases
      case plain
      then show ?thesis by (simp add: broadcast_eq)
    next
      case handled
      obtain fx where "log (snd (h m (broadcastToPopups acc m s))) = log (broadcastToPopups acc m s) @ fx"
        and "list_all side_effect fx"
        using handler_log[OF handled(1)] by blast
      then show ?thesis using handled(2) by (simp add: broadcast_eq)
    qed
  qed
  have b: "get_prop m ''type'' = Inr t \<and> \<not> recognized t \<longrightarrow>
        handleWebSocketMessage acc m s = (None, broadcastToPopups acc m s)"
    by (simp add: handleWebSocketMessage_def recognized_def Let_def)
  show ?thesis using a b by blast
qed

theorem router_broadcasts_first_witness:
  "get_prop future_frame ''type'' = Inr (JStr ''unknown_future_type'')
   \<and> \<not> recognized (JStr ''unknown_future_type'')
   \<and> handleWebSocketMessage (accepts all_ok) future_frame (run [(all_ok, PortConnect popup1)] boot)
      = (None, broadcastToPopups (accepts all_ok) future_frame (run [(all_ok, PortConnect popup1)] boot))
   \<and> log (broadcastToPopups (accepts all_ok) future_frame (run [(all_ok, PortConnect popup1)] boot))
      = [NewWebSocket 0, PostMessage popup1 (status_message ''disconnected'') True,
         Broadcast future_frame, PostMessage popup1 future_frame True]"
proof -
  have h: "get_prop future_frame ''type'' = Inr (JStr ''unknown_future_type'') \<and> \<not> recognized (JStr ''unknown_future_type'')"
    by (simp add: future_frame_def recognized_def)
  show ?thesis
    using h router_broadcasts_first[of "accepts all_ok" future_frame "run [(all_ok, PortConnect popup1)] boot" "JStr ''unknown_future_type''"]
    by (simp add: sample_defs run_defs)
qed

text \<open>
  Claim C7, as amended. For every event of type \<open>error\<close> handed to the router, the
  side effect after the broadcast is one call of \<open>chrome.notifications.create\<close> whose
  body is the value of the event's \<open>error\<close> property: the alert contains the error
  string of an event that carries it as \<open>error\<close>.
\<close>

theorem error_alert_shows_error_field:
  "get_prop m ''type'' = Inr (JStr ''error'') \<longrightarrow>
     (\<exists>v. get_prop m ''error'' = Inr v
          \<and> handleWebSocketMessage acc m s
              = (None, emit (NotificationCreate v) (broadcastToPopups acc m s)))"
proof
  assume t: "get_prop m ''type'' = Inr (JStr ''error'')"
  obtain v where v: "get_prop m ''error'' = Inr v"
    using typed_has_error_prop[OF t] by blast
  have "handleWebSocketMessage acc m s = (None, emit (NotificationCreate v) (broadcastToPopups acc m s))"
    using t v by (simp add: handleWebSocketMessage_def handleError_def Let_def)
  then show "\<exists>v. get_prop m ''error'' = Inr v
          \<and> handleWebSocketMessage acc m s
              = (None, emit (NotificationCreate v) (broadcastToPopups acc m s))"
    using v by blast
qed

theorem error_alert_shows_error_field_witness:
  "get_prop (JObj [(''type'', JStr ''error''), (''error'', JStr ''boom'')]) ''type'' = Inr (JStr ''error'')
   \<and> get_prop (JObj [(''type'', JStr ''error''), (''error'', JStr ''boom'')]) ''error'' = Inr (JStr ''boom'')
   \<and> log (snd (handleWebSocketMessage (accepts all_ok)
                  (JObj [(''type'', JStr ''error''), (''error'', JStr ''boom'')]) boot))
       = [NewWebSocket 0,
          Broadcast (JObj [(''type'', JStr ''error''), (''error'', JStr ''boom'')]),
          NotificationCreate (JStr ''boom'')]"
proof -
  have h: "get_prop (JObj [(''type'', JStr ''error''), (''error'', JStr ''boom'')]) ''type'' = Inr (JStr ''error'')"
    by simp
  have b: "log (broadcastToPopups (accepts all_ok)
                  (JObj [(''type'', JStr ''error''), (''error'', JStr ''boom'')]) boot)
       = [NewWebSocket 0, Broadcast (JObj [(''type'', JStr ''error''), (''error'', JStr ''boom'')])]"
    by (simp add: broadcast_eq boot_def initial_def connectWebSocket_def emit_def)
  show ?thesis
    using h b error_alert_shows_error_field[where m = "JObj [(''type'', JStr ''error''), (''error'', JStr ''boom'')]"
        and acc = "accepts all_ok" and s = boot]
    by (auto simp add: emit_def)
qed

text \<open>
  The claim as stated fails for the other shape: an error event that carries its text
  under \<open>message\<close> (the shape of the error events the script itself builds) gets a
  notification whose body is \<open>undefined\<close>.
\<close>

theorem error_alert_message_shape_counterexample:
  "get_prop (error_event ''boom'') ''type'' = Inr (JStr ''error'')
   \<and> get_prop (error_event ''boom'') ''message'' = Inr (JStr ''boom'')
   \<and> log (snd (handleWebSocketMessage (accepts all_ok) (error_event ''boom'') boot))
       = [NewWebSocket 0, Broadcast (error_event ''boom''), NotificationCreate JUndefined]"
  by (simp add: error_event_def handleWebSocketMessage_def handleError_def Let_def broadcast_eq
      boot_def initial_def connectWebSocket_def emit_def)

text \<open>
  Claim C8. A completed update arrives at time 0 and sets the timer that clears the
  badge at 3000; a failed update arrives at time 1000 and sets the failure badge. When
  the clock reaches 3000 the timer of the completed update fires and clears the failure
  badge.
\<close>

theorem failed_badge_cleared_by_pending_timer:
  "badgeText (run completed_then_failed boot) = BadgeBang
   \<and> now (run completed_then_failed boot) = 1000
   \<and> timers (run completed_then_failed boot) = [(3000, ClearBadgeText)]
   \<and> badgeText (step all_ok (Elapse 2000) (run completed_then_failed boot)) = BadgeEmpty
   \<and> now (step all_ok (Elapse 2000) (run completed_then_failed boot)) = 3000"
  by (simp add: completed_then_failed_state elapse_def fire_def setBadgeText_def emit_def Let_def)

subsection \<open>The Task Submitter\<close>

text \<open>
  Claim C4. When the create request fails (the promise rejects or the response is not
  \<open>ok\<close>), the invocation has issued the create request only and broadcasts exactly one
  event, of type \<open>error\<close>; the same when the body of the create response cannot be
  read. When the create step succeeds and the execute request fails, the invocation has
  issued both requests and broadcasts exactly one event, of type \<open>error\<close>. In the
  running script the failing settlement is one broadcast of that event and removes the
  invocation, so that nothing settles it again: no later request, no \<open>task_created\<close>.
  The step returns a state: nothing is thrown to the caller.
\<close>

theorem submit_failure:
  "(fetch_failed r \<longrightarrow>
      (\<exists>msg. executeTask_trace task (r # rs) = ([CreateTask task], [error_event msg])))
   \<and> (\<exists>msg. executeTask_trace task (Response True # JsonFail m # rs)
               = ([CreateTask task], [error_event msg]))
   \<and> (fetch_failed r \<and> get_prop taskData ''task_id'' = Inr tid \<longrightarrow>
      (\<exists>msg. executeTask_trace task (Response True # JsonOk taskData # r # rs)
               = ([CreateTask task, ExecuteTask tid], [error_event msg])))
   \<and> (fetch_failed r \<and> (map_of (pending s) k = Some AwaitCreate
                          \<or> map_of (pending s) k = Some (AwaitExecute taskData)) \<longrightarrow>
      (\<exists>msg. settle acc k r s =
               broadcastToPopups acc (error_event msg)
                 (s\<lparr>pending := filter (\<lambda>(j, d). j \<noteq> k) (pending s)\<rparr>))
      \<and> settle acc' k r' (settle acc k r s) = settle acc k r s)
   \<and> get_prop (error_event msg') ''type'' = Inr (JStr ''error'')"
proof -
  have a: "\<exists>msg. executeTask_trace task (r # rs) = ([CreateTask task], [error_event msg])"
    if "fetch_failed r"
    using resume_create_failed[OF that] by (auto simp add: executeTask_trace_def)
  have j: "\<exists>msg. executeTask_trace task (Response True # JsonFail m # rs)
               = ([CreateTask task], [error_event msg])"
    by (simp add: executeTask_trace_def executeTask_resume_def error_event_def)
  have b: "\<exists>msg. executeTask_trace task (Response True # JsonOk taskData # r # rs)
               = ([CreateTask task, ExecuteTask tid], [error_event msg])"
    if "fetch_failed r" and "get_prop taskData ''task_id'' = Inr tid"
    using resume_execute_failed[OF that(1), of taskData] resume_json[OF that(2)]
    by (auto simp add: executeTask_trace_def resume_create_ok)
  have c: "(\<exists>msg. settle acc k r s =
               broadcastToPopups acc (error_event msg)
                 (s\<lparr>pending := filter (\<lambda>(j, d). j \<noteq> k) (pending s)\<rparr>))
      \<and> settle acc' k r' (settle acc k r s) = settle acc k r s"
    if f: "fetch_failed r" and p: "map_of (pending s) k = Some AwaitCreate
                          \<or> map_of (pending s) k = Some (AwaitExecute taskData)"
  proof -
    obtain c msg where c: "map_of (pending s) k = Some c" and d: "executeTask_resume c r = Done (error_event msg)"
      using p resume_create_failed[OF f] resume_execute_failed[OF f, of taskData] by blast
    have e: "settle acc k r s = broadcastToPopups acc (error_event msg)
                 (s\<lparr>pending := filter (\<lambda>(j, d). j \<noteq> k) (pending s)\<rparr>)"
      using c d by (rule settle_done)
    have "map_of (pending (settle acc k r s)) k = None"
      by (simp add: e broadcast_pending map_of_filter_out)
    then have "settle acc' k r' (settle acc k r s) = settle acc k r s"
      by (rule settle_finished)
    then show ?thesis using e by blast
  qed
  have d: "get_prop (error_event msg') ''type'' = Inr (JStr ''error'')"
    by (simp add: error_event_def)
  show ?thesis using a j b c d by blast
qed

theorem submit_failure_witness:
  "fetch_failed (Response False)
   \<and> get_prop (JObj [(''task_id'', JStr ''t1'')]) ''task_id'' = Inr (JStr ''t1'')
   \<and> map_of (pending (run submitted boot)) 0 = Some AwaitCreate
   \<and> executeTask_trace (JStr ''open the inbox'') [Response False]
       = ([CreateTask (JStr ''open the inbox'')],
          [error_event ''Failed to execute task: Failed to create task''])
   \<and> executeTask_trace (JStr ''open the inbox'')
         [Response True, JsonOk (JObj [(''task_id'', JStr ''t1'')]), Response False]
       = ([CreateTask (JStr ''open the inbox''), ExecuteTask (JStr ''t1'')],
          [error_event ''Failed to execute task: Failed to execute task''])
   \<and> log (settle (accepts all_ok) 0 (Response False) (run submitted boot))
       = log (run submitted boot) @
         [Broadcast (error_event ''Failed to execute task: Failed to create task''),
          PostMessage popup1 (error_event ''Failed to execute task: Failed to create task'') True,
          PostMessage popup2 (error_event ''Failed to execute task: Failed to create task'') True]
   \<and> pending (settle (accepts all_ok) 0 (Response False) (run submitted boot)) = []"
proof -
  have h1: "fetch_failed (Response False)" by simp
  have h2: "get_prop (JObj [(''task_id'', JStr ''t1'')]) ''task_id'' = Inr (JStr ''t1'')" by simp
  have h3: "map_of (pending (run submitted boot)) 0 = Some AwaitCreate"
    by (simp add: submitted_state)
  note t = submit_failure[where r = "Response False" and task = "JStr ''open the inbox''"
        and rs = "[]" and m = "[]" and taskData = "JObj [(''task_id'', JStr ''t1'')]" and tid = "JStr ''t1''"
        and s = "run submitted boot" and k = 0 and acc = "accepts all_ok"
        and acc' = "accepts all_ok" and r' = "Response True" and msg' = "[]"]
  have a: "executeTask_trace (JStr ''open the inbox'') [Response False]
       = ([CreateTask (JStr ''open the inbox'')],
          [error_event ''Failed to execute task: Failed to create task''])"
    using t h1 by (simp add: executeTask_trace_def executeTask_resume_def error_event_def)
  have b: "executeTask_trace (JStr ''open the inbox'')
         [Response True, JsonOk (JObj [(''task_id'', JStr ''t1'')]), Response False]
       = ([CreateTask (JStr ''open the inbox''), ExecuteTask (JStr ''t1'')],
          [error_event ''Failed to execute task: Failed to execute task''])"
    by (simp add: executeTask_trace_def executeTask_resume_def error_event_def)
  have c: "settle (accepts all_ok) 0 (Response False) (run submitted boot) =
      broadcastToPopups (accepts all_ok) (error_event ''Failed to execute task: Failed to create task'')
        ((run submitted boot)\<lparr>pending := []\<rparr>)"
    by (simp add: submitted_state settle_def executeTask_resume_def error_event_def)
  have d: "log (settle (accepts all_ok) 0 (Response False) (run submitted boot))
       = log (run submitted boot) @
         [Broadcast (error_event ''Failed to execute task: Failed to create task''),
          PostMessage popup1 (error_event ''Failed to execute task: Failed to create task'') True,
          PostMessage popup2 (error_event ''Failed to execute task: Failed to create task'') True]"
    unfolding c by (simp add: broadcast_eq submitted_state all_ok_def)
  have e: "pending (settle (accepts all_ok) 0 (Response False) (run submitted boot)) = []"
    unfolding c by (simp add: broadcast_eq)
  show ?thesis
    using h1 h2 h3 a b d e by blast
qed

text \<open>
  Claim C5. When the create response is \<open>ok\<close>, its body has \<open>task_id\<close> \<open>t\<close> and
  the execute response is \<open>ok\<close>, the invocation issues the two requests and broadcasts
  exactly one event, \<open>task_created\<close> with \<open>taskId\<close> \<open>t\<close>, and no error event. In
  the running script that broadcast posts the event exactly once to every port
  registered at that moment.
\<close>

theorem submit_success:
  "(get_prop taskData ''task_id'' = Inr t \<longrightarrow>
      executeTask_trace task (Response True # JsonOk taskData # Response True # rs)
        = ([CreateTask task, ExecuteTask t], [task_created t]))
   \<and> (get_prop taskData ''task_id'' = Inr t
        \<and> map_of (pending (run tr boot)) k = Some (AwaitExecute taskData) \<longrightarrow>
      step ev (Settle k (Response True)) (run tr boot) =
        broadcastToPopups (accepts ev) (task_created t)
          ((run tr boot)\<lparr>pending := filter (\<lambda>(j, d). j \<noteq> k) (pending (run tr boot))\<rparr>)
      \<and> (\<forall>p \<in> set (ports (run tr boot)).
            posted p (log (step ev (Settle k (Response True)) (run tr boot)))
              = posted p (log (run tr boot)) @ [task_created t]
            \<and> (accepts ev p \<longrightarrow>
                 received p (log (step ev (Settle k (Response True)) (run tr boot)))
                   = received p (log (run tr boot)) @ [task_created t])))
   \<and> get_prop (task_created t) ''type'' = Inr (JStr ''task_created'')
   \<and> get_prop (task_created t) ''taskId'' = Inr t"
proof -
  have a: "executeTask_trace task (Response True # JsonOk taskData # Response True # rs)
        = ([CreateTask task, ExecuteTask t], [task_created t])"
    if "get_prop taskData ''task_id'' = Inr t"
    using resume_json[OF that] resume_created[OF that]
    by (simp add: executeTask_trace_def resume_create_ok)
  have b: "step ev (Settle k (Response True)) (run tr boot) =
        broadcastToPopups (accepts ev) (task_created t)
          ((run tr boot)\<lparr>pending := filter (\<lambda>(j, d). j \<noteq> k) (pending (run tr boot))\<rparr>)
      \<and> (\<forall>p \<in> set (ports (run tr boot)).
            posted p (log (step ev (Settle k (Response True)) (run tr boot)))
              = posted p (log (run tr boot)) @ [task_created t]
            \<and> (accepts ev p \<longrightarrow>
                 received p (log (step ev (Settle k (Response True)) (run tr boot)))
                   = received p (log (run tr boot)) @ [task_created t]))"
    if t: "get_prop taskData ''task_id'' = Inr t"
      and p: "map_of (pending (run tr boot)) k = Some (AwaitExecute taskData)"
  proof -
    have d: "distinct (ports (run tr boot))"
      by (rule run_distinct) (simp add: boot_facts)
    have e: "settle (accepts ev) k (Response True) (run tr boot) =
        broadcastToPopups (accepts ev) (task_created t)
          ((run tr boot)\<lparr>pending := filter (\<lambda>(j, d). j \<noteq> k) (pending (run tr boot))\<rparr>)"
      using p resume_created[OF t] by (rule settle_done)
    show ?thesis
      using d by (simp add: e broadcast_frame filter_eq_distinct filter_eq_accepting)
  qed
  have c: "get_prop (task_created t) ''type'' = Inr (JStr ''task_created'')
      \<and> get_prop (task_created t) ''taskId'' = Inr t"
    by (simp add: task_created_def)
  show ?thesis using a b c by blast
qed

theorem submit_success_witness:
  "get_prop (JObj [(''task_id'', JStr ''t1'')]) ''task_id'' = Inr (JStr ''t1'')
   \<and> map_of (pending (run created_t1 boot)) 0 = Some (AwaitExecute (JObj [(''task_id'', JStr ''t1'')]))
   \<and> executeTask_trace (JStr ''open the inbox'')
         [Response True, JsonOk (JObj [(''task_id'', JStr ''t1'')]), Response True]
       = ([CreateTask (JStr ''open the inbox''), ExecuteTask (JStr ''t1'')], [task_created (JStr ''t1'')])
   \<and> log (step all_ok (Settle 0 (Response True)) (run created_t1 boot))
       = [NewWebSocket 0,
          PostMessage popup1 (status_message ''disconnected'') True,
          PostMessage popup2 (status_message ''disconnected'') True,
          Fetch 0 (CreateTask (JStr ''open the inbox'')),
          Fetch 0 (ExecuteTask (JStr ''t1'')),
          Broadcast (task_created (JStr ''t1'')),
          PostMessage popup1 (task_created (JStr ''t1'')) True,
          PostMessage popup2 (task_created (JStr ''t1'')) True]"
proof -
  have h1: "get_prop (JObj [(''task_id'', JStr ''t1'')]) ''task_id'' = Inr (JStr ''t1'')" by simp
  have h2: "map_of (pending (run created_t1 boot)) 0 = Some (AwaitExecute (JObj [(''task_id'', JStr ''t1'')]))"
    by (simp add: created_t1_state)
  note t = submit_success[where taskData = "JObj [(''task_id'', JStr ''t1'')]" and t = "JStr ''t1''"
        and task = "JStr ''open the inbox''" and rs = "[]" and tr = created_t1 and k = 0 and ev = all_ok]
  have a: "executeTask_trace (JStr ''open the inbox'')
         [Response True, JsonOk (JObj [(''task_id'', JStr ''t1'')]), Response True]
       = ([CreateTask (JStr ''open the inbox''), ExecuteTask (JStr ''t1'')], [task_created (JStr ''t1'')])"
    using t h1 by blast
  have c: "step all_ok (Settle 0 (Response True)) (run created_t1 boot) =
        broadcastToPopups (accepts all_ok) (task_created (JStr ''t1''))
          ((run created_t1 boot)\<lparr>pending := filter (\<lambda>(j, d). j \<noteq> 0) (pending (run created_t1 boot))\<rparr>)"
    using t h1 h2 by blast
  have d: "log (step all_ok (Settle 0 (Response True)) (run created_t1 boot))
       = [NewWebSocket 0,
          PostMessage popup1 (status_message ''disconnected'') True,
          PostMessage popup2 (status_message ''disconnected'') True,
          Fetch 0 (CreateTask (JStr ''open the inbox'')),
          Fetch 0 (ExecuteTask (JStr ''t1'')),
          Broadcast (task_created (JStr ''t1'')),
          PostMessage popup1 (task_created (JStr ''t1'')) True,
          PostMessage popup2 (task_created (JStr ''t1'')) True]"
    unfolding c by (simp add: broadcast_eq created_t1_state all_ok_def)
  show ?thesis
    using h1 h2 a d by blast
qed

end
